theory Spec2Isabelle
  imports Complex_Main "HOL-Library.Word" "HOL-Library.Multiset"
begin

section \<open>JavaScript values used by the radial ego graph\<close>

text \<open>
  The component under study is \<^verbatim>\<open>RadialEgoGraph\<close> (the second document of
  \<^verbatim>\<open>frontend/src/components/EventNode.tsx\<close>). It is TypeScript that runs as
  JavaScript, so the model fixes how JavaScript values are read:

  \<^item> a string is its list of UTF-16 code units (\<^verbatim>\<open>charCodeAt\<close> reads one unit);
  \<^item> a field that may be \<^verbatim>\<open>null\<close>, \<^verbatim>\<open>undefined\<close> or absent from the JSON payload is an
    \<open>option\<close>;
  \<^item> a time stamp is an integer number of milliseconds, and \<^verbatim>\<open>NaN\<close> from
    \<^verbatim>\<open>Date.parse\<close> is \<open>None\<close>;
  \<^item> in the radius and the scores a finite number is a real: the rounding of IEEE doubles
    is not modelled there. Where the code can produce \<^verbatim>\<open>NaN\<close> or an infinity (the size
    scale), numbers are \<open>jsnum\<close>. In the angle, where \<^verbatim>\<open>% 1\<close> returns the very digits the
    rounding leaves, doubles are modelled exactly (\<open>double\<close>).
\<close>

type_synonym jsstring = "16 word list"

definition str :: "string \<Rightarrow> jsstring" where
  "str s = map (\<lambda>c. of_nat (of_char c)) s"

datatype js_error = TypeError | URIError

datatype jsnum = NaN | PosInf | NegInf | Num real

fun js_neg :: "jsnum \<Rightarrow> jsnum" where
  "js_neg NaN = NaN"
| "js_neg PosInf = NegInf"
| "js_neg NegInf = PosInf"
| "js_neg (Num x) = Num (- x)"

fun js_add :: "jsnum \<Rightarrow> jsnum \<Rightarrow> jsnum" where
  "js_add NaN b = NaN"
| "js_add a NaN = NaN"
| "js_add PosInf NegInf = NaN"
| "js_add NegInf PosInf = NaN"
| "js_add PosInf b = PosInf"
| "js_add a PosInf = PosInf"
| "js_add NegInf b = NegInf"
| "js_add a NegInf = NegInf"
| "js_add (Num x) (Num y) = Num (x + y)"

definition js_sub :: "jsnum \<Rightarrow> jsnum \<Rightarrow> jsnum" where
  "js_sub a b = js_add a (js_neg b)"

text \<open>A zero is read as \<^verbatim>\<open>+0\<close>: the only zeros the code divides by or multiplies with come
  from \<^verbatim>\<open>x - x\<close>, which is \<^verbatim>\<open>+0\<close> in IEEE arithmetic.\<close>

fun js_mul :: "jsnum \<Rightarrow> jsnum \<Rightarrow> jsnum" where
  "js_mul NaN b = NaN"
| "js_mul a NaN = NaN"
| "js_mul (Num x) (Num y) = Num (x * y)"
| "js_mul (Num x) PosInf = (if x = 0 then NaN else if 0 < x then PosInf else NegInf)"
| "js_mul (Num x) NegInf = (if x = 0 then NaN else if 0 < x then NegInf else PosInf)"
| "js_mul PosInf (Num y) = (if y = 0 then NaN else if 0 < y then PosInf else NegInf)"
| "js_mul NegInf (Num y) = (if y = 0 then NaN else if 0 < y then NegInf else PosInf)"
| "js_mul PosInf PosInf = PosInf"
| "js_mul PosInf NegInf = NegInf"
| "js_mul NegInf PosInf = NegInf"
| "js_mul NegInf NegInf = PosInf"

fun js_div :: "jsnum \<Rightarrow> jsnum \<Rightarrow> jsnum" where
  "js_div NaN b = NaN"
| "js_div a NaN = NaN"
| "js_div (Num x) (Num y) =
     (if y = 0 then (if x = 0 then NaN else if 0 < x then PosInf else NegInf)
      else Num (x / y))"
| "js_div (Num x) PosInf = Num 0"
| "js_div (Num x) NegInf = Num 0"
| "js_div PosInf (Num y) = (if 0 \<le> y then PosInf else NegInf)"
| "js_div NegInf (Num y) = (if 0 \<le> y then NegInf else PosInf)"
| "js_div PosInf b = NaN"
| "js_div NegInf b = NaN"

fun js_min :: "jsnum \<Rightarrow> jsnum \<Rightarrow> jsnum" where
  "js_min NaN b = NaN"
| "js_min a NaN = NaN"
| "js_min NegInf b = NegInf"
| "js_min a NegInf = NegInf"
| "js_min PosInf b = b"
| "js_min a PosInf = a"
| "js_min (Num x) (Num y) = Num (min x y)"

fun js_max :: "jsnum \<Rightarrow> jsnum \<Rightarrow> jsnum" where
  "js_max NaN b = NaN"
| "js_max a NaN = NaN"
| "js_max PosInf b = PosInf"
| "js_max a PosInf = PosInf"
| "js_max NegInf b = b"
| "js_max a NegInf = a"
| "js_max (Num x) (Num y) = Num (max x y)"

text \<open>\<^verbatim>\<open>Math.min(...xs)\<close> and \<^verbatim>\<open>Math.max(...xs)\<close>: of no argument they are
  \<^verbatim>\<open>+Infinity\<close> and \<^verbatim>\<open>-Infinity\<close>.\<close>

definition Math_min :: "jsnum list \<Rightarrow> jsnum" where
  "Math_min xs = fold (\<lambda>x acc. js_min acc x) xs PosInf"

definition Math_max :: "jsnum list \<Rightarrow> jsnum" where
  "Math_max xs = fold (\<lambda>x acc. js_max acc x) xs NegInf"

definition isFinite :: "jsnum \<Rightarrow> bool" where
  "isFinite v = (case v of Num x \<Rightarrow> True | _ \<Rightarrow> False)"

text \<open>The remainder operator \<^verbatim>\<open>%\<close> on integers truncates towards zero: the result has the
  sign of the dividend. (The divisor in \<^verbatim>\<open>topicColor\<close> is the palette's length, 8.)\<close>

definition js_rem_int :: "int \<Rightarrow> int \<Rightarrow> int" where
  "js_rem_int a b = sgn a * (\<bar>a\<bar> mod \<bar>b\<bar>)"

text \<open>\<^verbatim>\<open>x | 0\<close> is ToInt32: the value modulo \<open>2^32\<close>, read as two's complement.\<close>

definition ToInt32 :: "int \<Rightarrow> int" where
  "ToInt32 x = (let m = x mod 2 ^ 32 in if 2 ^ 31 \<le> m then m - 2 ^ 32 else m)"

subsection \<open>String built-ins\<close>

text \<open>\<^verbatim>\<open>String.prototype.trim\<close> removes the white space and line terminators of ECMAScript
  from both ends.\<close>

definition isWhiteSpace :: "16 word \<Rightarrow> bool" where
  "isWhiteSpace c =
     (c \<in> {0x9, 0xA, 0xB, 0xC, 0xD, 0x20, 0xA0, 0x1680, 0x2028, 0x2029, 0x202F, 0x205F,
            0x3000, 0xFEFF}
      \<or> (0x2000 \<le> c \<and> c \<le> 0x200A))"

definition trim :: "jsstring \<Rightarrow> jsstring" where
  "trim s = rev (dropWhile isWhiteSpace (rev (dropWhile isWhiteSpace s)))"

text \<open>\<^verbatim>\<open>toLowerCase\<close> on the letters A to Z. The host also maps letters beyond ASCII; none
  of them maps to one of the letters of \<^verbatim>\<open>"other"\<close>, the only string the result is compared
  with here.\<close>

definition toLowerCase :: "jsstring \<Rightarrow> jsstring" where
  "toLowerCase s = map (\<lambda>c. if 0x41 \<le> c \<and> c \<le> 0x5A then c + 0x20 else c) s"

definition startsWith :: "jsstring \<Rightarrow> jsstring \<Rightarrow> bool" where
  "startsWith s p = (take (length p) s = p)"

text \<open>\<^verbatim>\<open>String(v)\<close> of a value that is a string or \<^verbatim>\<open>undefined\<close>.\<close>

definition String_of :: "jsstring option \<Rightarrow> jsstring" where
  "String_of v = (case v of None \<Rightarrow> str ''undefined'' | Some s \<Rightarrow> s)"

text \<open>The id of a node as the JSON payload gives it: the key is absent (\<^verbatim>\<open>undefined\<close> when
  read), or its value is \<^verbatim>\<open>null\<close>, or it is a string; an id of another JSON type is outside
  the contract and outside the model. \<^verbatim>\<open>String(n.id)\<close> is \<open>String_of_id\<close>.\<close>

datatype idvalue = IdAbsent | IdNull | IdString jsstring

definition String_of_id :: "idvalue \<Rightarrow> jsstring" where
  "String_of_id v =
     (case v of IdAbsent \<Rightarrow> str ''undefined'' | IdNull \<Rightarrow> str ''null'' | IdString s \<Rightarrow> s)"

text \<open>\<^verbatim>\<open>encodeURIComponent\<close>: the unreserved characters stay, every other code point becomes
  the percent-escaped bytes of its UTF-8 encoding, and a surrogate without its partner raises
  \<^verbatim>\<open>URIError\<close>.\<close>

definition uriUnreserved :: "16 word \<Rightarrow> bool" where
  "uriUnreserved c =
     ((0x41 \<le> c \<and> c \<le> 0x5A) \<or> (0x61 \<le> c \<and> c \<le> 0x7A) \<or> (0x30 \<le> c \<and> c \<le> 0x39)
      \<or> c \<in> {0x2D, 0x5F, 0x2E, 0x21, 0x7E, 0x2A, 0x27, 0x28, 0x29})"

definition hexDigit :: "nat \<Rightarrow> 16 word" where
  "hexDigit d = (if d < 10 then of_nat (0x30 + d) else of_nat (0x41 + (d - 10)))"

definition pctByte :: "nat \<Rightarrow> jsstring" where
  "pctByte b = [0x25, hexDigit (b div 16), hexDigit (b mod 16)]"

definition utf8 :: "nat \<Rightarrow> nat list" where
  "utf8 cp =
     (if cp < 0x80 then [cp]
      else if cp < 0x800 then [0xC0 + cp div 64, 0x80 + cp mod 64]
      else if cp < 0x10000 then
        [0xE0 + cp div 4096, 0x80 + (cp div 64) mod 64, 0x80 + cp mod 64]
      else [0xF0 + cp div 262144, 0x80 + (cp div 4096) mod 64,
            0x80 + (cp div 64) mod 64, 0x80 + cp mod 64])"

definition pctEncode :: "nat \<Rightarrow> jsstring" where
  "pctEncode cp = concat (map pctByte (utf8 cp))"

definition isHighSurrogate :: "16 word \<Rightarrow> bool" where
  "isHighSurrogate c = (0xD800 \<le> c \<and> c \<le> 0xDBFF)"

definition isLowSurrogate :: "16 word \<Rightarrow> bool" where
  "isLowSurrogate c = (0xDC00 \<le> c \<and> c \<le> 0xDFFF)"

definition andThen :: "jsstring \<Rightarrow> js_error + jsstring \<Rightarrow> js_error + jsstring" where
  "andThen p r = (case r of Inl e \<Rightarrow> Inl e | Inr s \<Rightarrow> Inr (p @ s))"

fun encodeURIComponent :: "jsstring \<Rightarrow> js_error + jsstring" where
  "encodeURIComponent [] = Inr []"
| "encodeURIComponent [c] =
     (if uriUnreserved c then Inr [c]
      else if isLowSurrogate c \<or> isHighSurrogate c then Inl URIError
      else Inr (pctEncode (unat c)))"
| "encodeURIComponent (c # d # ds) =
     (if uriUnreserved c then andThen [c] (encodeURIComponent (d # ds))
      else if isLowSurrogate c then Inl URIError
      else if isHighSurrogate c then
        (if isLowSurrogate d
         then andThen (pctEncode ((unat c - 0xD800) * 0x400 + (unat d - 0xDC00) + 0x10000))
                (encodeURIComponent ds)
         else Inl URIError)
      else andThen (pctEncode (unat c)) (encodeURIComponent (d # ds)))"

section \<open>The backend contract and the layout constants\<close>

text \<open>A node of the payload. The declared type makes \<^verbatim>\<open>id\<close> and \<^verbatim>\<open>type\<close> required strings,
  but the payload is JSON read without validation, so both may be absent at run time.\<close>

record GraphNode =
  node_id :: idvalue
  node_type :: "jsstring option"
  label :: jsstring
  ring :: int
  topic :: "jsstring option"
  starts_at :: "jsstring option"
  score :: real
  social_count :: "nat option"
  poster_url :: "jsstring option"
  event_id :: "jsstring option"

record band =
  bmin :: real
  bmax :: real
  spanSec :: real

definition RING_BANDS :: "band list" where
  "RING_BANDS =
     [\<lparr>bmin = 130, bmax = 190, spanSec = 24 * 3600\<rparr>,
      \<lparr>bmin = 210, bmax = 290, spanSec = 7 * 24 * 3600\<rparr>,
      \<lparr>bmin = 310, bmax = 390, spanSec = 0\<rparr>]"

definition TOPIC_COLORS :: "jsstring list" where
  "TOPIC_COLORS =
     [str ''#1b9e77'', str ''#d95f02'', str ''#7570b3'', str ''#e7298a'',
      str ''#66a61e'', str ''#e6ab02'', str ''#a6761d'', str ''#666666'']"

definition OTHER_TOPIC_COLOR :: jsstring where
  "OTHER_TOPIC_COLOR = str ''#93c5fd''"

section \<open>Utilities\<close>

text \<open>\<^verbatim>\<open>for (i...) h = ((h << 5) - h + s.charCodeAt(i)) | 0\<close>: \<open>h\<close> is a 32-bit integer,
  the shift wraps to 32 bits, and \<^verbatim>\<open>| 0\<close> wraps the sum again.\<close>

definition hashStr :: "jsstring \<Rightarrow> int" where
  "hashStr s = fold (\<lambda>c h. ToInt32 (ToInt32 (h * 2 ^ 5) - h + uint c)) s 0"

definition topicColor :: "jsstring option \<Rightarrow> jsstring" where
  "topicColor tp =
     (case tp of
        None \<Rightarrow> OTHER_TOPIC_COLOR
      | Some s \<Rightarrow>
          if s = [] then OTHER_TOPIC_COLOR
          else
            let t = trim s in
            if length t = 0 then OTHER_TOPIC_COLOR
            else if toLowerCase t = str ''other'' then OTHER_TOPIC_COLOR
            else
              let idx = js_rem_int \<bar>hashStr t\<bar> (int (length TOPIC_COLORS))
              in TOPIC_COLORS ! nat idx)"

section \<open>The component\<close>

subsection \<open>Enrichment of the fetched payload\<close>

definition enrich :: "GraphNode \<Rightarrow> GraphNode" where
  "enrich n =
     (let eid =
        (if node_type n = Some (str ''event'')
         then
           (let idStr = String_of_id (node_id n)
            in Some (if startsWith idStr (str ''event:'') then drop 6 idStr else idStr))
         else None)
      in n\<lparr>event_id := eid, poster_url := poster_url n\<rparr>)"

definition enriched :: "GraphNode list \<Rightarrow> GraphNode list" where
  "enriched nodes = map enrich nodes"

subsection \<open>The working set: top 10 recommendations\<close>

text \<open>\<^verbatim>\<open>Array.prototype.sort\<close> with a comparator is stable, and on a consistent comparator
  its result does not depend on the host's algorithm. It is modelled as the insertion sort
  that puts an element before the first later one it does not compare greater than.\<close>

fun insert_by :: "('a \<Rightarrow> 'a \<Rightarrow> real) \<Rightarrow> 'a \<Rightarrow> 'a list \<Rightarrow> 'a list" where
  "insert_by cmp x [] = [x]"
| "insert_by cmp x (y # ys) = (if cmp x y \<le> 0 then x # y # ys else y # insert_by cmp x ys)"

definition Array_sort :: "('a \<Rightarrow> 'a \<Rightarrow> real) \<Rightarrow> 'a list \<Rightarrow> 'a list" where
  "Array_sort cmp xs = foldr (insert_by cmp) xs []"

definition eventNodes :: "GraphNode list \<Rightarrow> GraphNode list" where
  "eventNodes nodes =
     (let evs = filter (\<lambda>n. node_type n = Some (str ''event'')) nodes;
          evs' = Array_sort (\<lambda>a b. score b - score a) evs
      in take 10 evs')"

subsection \<open>Continuous time to radius\<close>

text \<open>\<^verbatim>\<open>Date.parse\<close> is the host's: it is a parameter \<open>Date_parse\<close>, with \<open>None\<close> for
  \<^verbatim>\<open>NaN\<close>. \<^verbatim>\<open>Date.now()\<close> is the parameter \<open>now\<close>. \<^verbatim>\<open>n.starts_at || ""\<close> is
  \<open>starts_at_or_empty\<close>.\<close>

definition starts_at_or_empty :: "GraphNode \<Rightarrow> jsstring" where
  "starts_at_or_empty n = (case starts_at n of None \<Rightarrow> [] | Some s \<Rightarrow> s)"

definition futureDeltas :: "(jsstring \<Rightarrow> int option) \<Rightarrow> int \<Rightarrow> GraphNode list \<Rightarrow> real list" where
  "futureDeltas Date_parse now evs =
     map (\<lambda>ts. (real_of_int ts - real_of_int now) / 1000)
       (filter (\<lambda>ts. ts > now)
          (concat (map (\<lambda>n. case Date_parse (starts_at_or_empty n) of
                               None \<Rightarrow> [] | Some ts \<Rightarrow> [ts]) evs)))"

definition horizonSec :: "(jsstring \<Rightarrow> int option) \<Rightarrow> int \<Rightarrow> GraphNode list \<Rightarrow> real" where
  "horizonSec Date_parse now evs =
     fold max (futureDeltas Date_parse now evs @ [24 * 3600]) (24 * 3600)"

definition radiusForTime :: "(jsstring \<Rightarrow> int option) \<Rightarrow> real \<Rightarrow> int \<Rightarrow> GraphNode \<Rightarrow> real" where
  "radiusForTime Date_parse horizon now n =
     (case Date_parse (starts_at_or_empty n) of
        None \<Rightarrow> bmax (RING_BANDS ! 2)
      | Some ts \<Rightarrow>
          let dt = max 0 ((real_of_int ts - real_of_int now) / 1000) in
          if dt \<le> 24 * 3600 then
            (let b = RING_BANDS ! 0; t = dt / spanSec b
             in bmin b + t * (bmax b - bmin b))
          else if dt \<le> 7 * 24 * 3600 then
            (let b = RING_BANDS ! 1; t = (dt - 24 * 3600) / (spanSec b - 24 * 3600)
             in bmin b + t * (bmax b - bmin b))
          else
            (let b = RING_BANDS ! 2; span = horizon;
                 t = (if span > 0 then min 1 (dt / span) else 1 / 2)
             in bmin b + t * (bmax b - bmin b)))"

subsection \<open>Angle\<close>

text \<open>The angle is where rounding decides the result: \<^verbatim>\<open>h * phi\<close> is about \<open>10^9\<close>, so the
  double that holds it keeps some 22 binary digits after the point, and \<^verbatim>\<open>% 1\<close> returns just
  those. Here the doubles are therefore modelled exactly. The doubles of \<^verbatim>\<open>angleForEvent\<close>
  are finite and not negative: \<open>Double m e\<close> is the number \<open>m * 2^e\<close>. A product of two
  doubles is the exact product rounded to 53 significant binary digits, to the nearest, ties
  to the even significand (no product here leaves the exponent range of a double).\<close>

datatype double = Double (significand: nat) (exponent: int)

definition valueOf :: "double \<Rightarrow> real" where
  "valueOf d =
     (if 0 \<le> exponent d then real (significand d) * 2 ^ nat (exponent d)
      else real (significand d) / 2 ^ nat (- exponent d))"

fun bitLength :: "nat \<Rightarrow> nat" where
  "bitLength n = (if n = 0 then 0 else Suc (bitLength (n div 2)))"

declare bitLength.simps [simp del]

text \<open>\<open>roundTiesToEven N s\<close> is \<open>N / 2^s\<close> rounded to the nearest integer, a tie going to the
  even one; \<open>roundDouble N e\<close> is the double nearest to \<open>N * 2^e\<close>.\<close>

definition roundTiesToEven :: "nat \<Rightarrow> nat \<Rightarrow> nat" where
  "roundTiesToEven N s =
     (let f = N div 2 ^ s; r = N mod 2 ^ s
      in if 2 * r < 2 ^ s \<or> (2 * r = 2 ^ s \<and> even f) then f else f + 1)"

definition roundDouble :: "nat \<Rightarrow> int \<Rightarrow> double" where
  "roundDouble N e =
     (if bitLength N \<le> 53 then Double N e
      else let s = bitLength N - 53 in Double (roundTiesToEven N s) (e + int s))"

definition dmul :: "double \<Rightarrow> double \<Rightarrow> double" where
  "dmul a b = roundDouble (significand a * significand b) (exponent a + exponent b)"

text \<open>\<^verbatim>\<open>x % 1\<close> of a double that is not negative: its fractional part, which is a double
  again, so nothing is rounded.\<close>

definition dfrac :: "double \<Rightarrow> double" where
  "dfrac a =
     (if 0 \<le> exponent a then Double 0 0
      else Double (significand a mod 2 ^ nat (- exponent a)) (exponent a))"

text \<open>An integer below \<open>2^53\<close> is a double as it stands; \<^verbatim>\<open>Math.abs(hashStr(n.id))\<close> is at most
  \<open>2^31\<close>. \<open>PHI\<close> is the double of the literal \<^verbatim>\<open>0.61803398875\<close> and \<open>Math_PI\<close> the double
  \<^verbatim>\<open>Math.PI\<close>.\<close>

definition ofNat :: "nat \<Rightarrow> double" where
  "ofNat n = Double n 0"

definition PHI :: double where
  "PHI = Double 5566755282873603 (- 53)"

definition Math_PI :: double where
  "Math_PI = Double 884279719003555 (- 48)"

text \<open>\<^verbatim>\<open>hashStr(n.id)\<close> reads \<^verbatim>\<open>s.length\<close>: on a node whose id is absent or \<^verbatim>\<open>null\<close> that is a
  \<^verbatim>\<open>TypeError\<close>.\<close>

definition angleForEvent :: "GraphNode \<Rightarrow> js_error + real" where
  "angleForEvent n =
     (case node_id n of
        IdAbsent \<Rightarrow> Inl TypeError
      | IdNull \<Rightarrow> Inl TypeError
      | IdString s \<Rightarrow>
          let h = ofNat (nat \<bar>hashStr s\<bar>);
              phi = PHI;
              a = dmul (dmul (dfrac (dmul h phi)) Math_PI) (ofNat 2)
          in Inr (valueOf a))"

subsection \<open>Size scale\<close>

definition nodeValScale :: "GraphNode list \<Rightarrow> jsnum \<Rightarrow> jsnum" where
  "nodeValScale evs s =
     (let scores = map (\<lambda>n. Num (score n)) evs
      in js_mul (Num 60)
           (js_add (Num (4 / 10))
              (js_div (js_sub s (Math_min scores))
                      (js_sub (Math_max scores) (Math_min scores)))))"

subsection \<open>Click navigation\<close>

text \<open>What a click does: it calls \<^verbatim>\<open>onEventClick\<close>, assigns \<^verbatim>\<open>window.location.href\<close>, or
  does nothing. \<open>hasCallback\<close> tells whether the property \<^verbatim>\<open>onEventClick\<close> was supplied.\<close>

datatype navigation = OnEventClick jsstring | LocationHref jsstring | NoNavigation

definition truthy :: "jsstring option \<Rightarrow> bool" where
  "truthy v = (case v of None \<Rightarrow> False | Some s \<Rightarrow> s \<noteq> [])"

definition handleNodeClick :: "bool \<Rightarrow> GraphNode \<Rightarrow> js_error + navigation" where
  "handleNodeClick hasCallback n =
     (if node_type n = Some (str ''event'') \<and> truthy (event_id n) then
        (if hasCallback then Inr (OnEventClick (String_of (event_id n)))
         else
           (case encodeURIComponent (String_of (event_id n)) of
              Inl e \<Rightarrow> Inl e
            | Inr p \<Rightarrow> Inr (LocationHref (str ''/events/eventpage/'' @ p))))
      else Inr NoNavigation)"

section \<open>The specification's radius, and example data\<close>

text \<open>The radius as the specification words it (section 4.2): each band maps to its radius
  interval by linear interpolation on the fractional position within the band, the bands
  being \<open>[0, 24h]\<close>, \<open>(24h, 7d]\<close> and \<open>(7d, horizon]\<close>.\<close>

definition fractionalPosition :: "real \<Rightarrow> real \<Rightarrow> real \<Rightarrow> real" where
  "fractionalPosition lo hi dt = (dt - lo) / (hi - lo)"

definition spec_radius :: "real \<Rightarrow> real \<Rightarrow> real" where
  "spec_radius horizon dt =
     (if dt \<le> 24 * 3600 then 130 + fractionalPosition 0 (24 * 3600) dt * (190 - 130)
      else if dt \<le> 7 * 24 * 3600
        then 210 + fractionalPosition (24 * 3600) (7 * 24 * 3600) dt * (290 - 210)
      else 310 + fractionalPosition (7 * 24 * 3600) horizon dt * (390 - 310))"

text \<open>The seconds from \<open>now\<close> to a parsed time stamp, clamped at zero: \<open>dt\<close> of
  \<^verbatim>\<open>radiusForTime\<close>.\<close>

definition dtSec :: "int \<Rightarrow> int \<Rightarrow> real" where
  "dtSec now ts = max 0 ((real_of_int ts - real_of_int now) / 1000)"

text \<open>Example data. \<open>sampleNow\<close> is 2025-01-01T00:00:00Z, and \<open>sampleDate_parse\<close> gives the
  value of \<^verbatim>\<open>Date.parse\<close> on the time stamps of the examples (\<^verbatim>\<open>NaN\<close> elsewhere).\<close>

definition sampleNow :: int where
  "sampleNow = 1735689600000"

definition sampleDate_parse :: "jsstring \<Rightarrow> int option" where
  "sampleDate_parse =
     map_of
       [(str ''2024-12-31T00:00:00Z'', 1735603200000),
        (str ''2025-01-01T02:00:00Z'', 1735696800000),
        (str ''2025-01-02T00:00:00.000Z'', 1735776000000),
        (str ''2025-01-02T00:00:00.001Z'', 1735776000001),
        (str ''2025-01-08T00:00:00.000Z'', 1736294400000),
        (str ''2025-01-08T00:00:00.001Z'', 1736294400001),
        (str ''2025-01-09T00:00:00Z'', 1736380800000),
        (str ''2025-01-17T00:00:00Z'', 1737072000000)]"

definition sampleNode :: "string option \<Rightarrow> string option \<Rightarrow> real \<Rightarrow> string option \<Rightarrow> GraphNode" where
  "sampleNode ident ty sc st =
     \<lparr>node_id = (case ident of None \<Rightarrow> IdAbsent | Some i \<Rightarrow> IdString (str i)),
      node_type = map_option str ty,
      label = str ''Event'', ring = 0, topic = None, starts_at = map_option str st,
      score = sc, social_count = None, poster_url = None, event_id = None\<rparr>"

definition sampleEvent :: "string \<Rightarrow> real \<Rightarrow> string \<Rightarrow> GraphNode" where
  "sampleEvent ident sc st = sampleNode (Some ident) (Some ''event'') sc (Some st)"

text \<open>Example payloads: fifteen events with the scores 10, 9, ... in payload order; and a
  payload with a person, a node without type, and eleven events of which the first and the
  last tie on the lowest score.\<close>

definition scored :: "string \<Rightarrow> real \<Rightarrow> GraphNode" where
  "scored ident sc = sampleEvent ident sc ''2025-01-09T00:00:00Z''"

definition descending15 :: "GraphNode list" where
  "descending15 =
     [scored ''event:1'' 10, scored ''event:2'' 9, scored ''event:3'' 8, scored ''event:4'' 7,
      scored ''event:5'' 6, scored ''event:6'' 5, scored ''event:7'' 4, scored ''event:8'' 3,
      scored ''event:9'' 2, scored ''event:10'' 1, scored ''event:11'' 0,
      scored ''event:12'' (- 1), scored ''event:13'' (- 2), scored ''event:14'' (- 3),
      scored ''event:15'' (- 4)]"

definition tiedPayload :: "GraphNode list" where
  "tiedPayload =
     [sampleNode (Some ''person:7'') (Some ''person'') 100 None,
      scored ''event:a'' 1, scored ''event:2'' 2, scored ''event:3'' 3, scored ''event:4'' 4,
      sampleNode (Some ''event:x'') None 50 None,
      scored ''event:5'' 5, scored ''event:6'' 6, scored ''event:7'' 7, scored ''event:8'' 8,
      scored ''event:9'' 9, scored ''event:10'' 10, scored ''event:b'' 1]"

text \<open>An event whose id ends in a high surrogate without its partner: the id a JSON string
  has when it ends in the escape of the single code unit D800.\<close>

definition surrogateEvent :: GraphNode where
  "surrogateEvent =
     (sampleEvent ''event:'' 1 ''2025-01-09T00:00:00Z'')\<lparr>node_id := IdString (str ''event:'' @ [0xD800])\<rparr>"

text \<open>The radius as a function of \<open>dt\<close> and the horizon: the three branches of
  \<^verbatim>\<open>radiusForTime\<close> with the constants of \<^verbatim>\<open>RING_BANDS\<close> put in (see \<open>radiusForTime_bandExpr\<close>).\<close>

definition bandExpr :: "real \<Rightarrow> real \<Rightarrow> real" where
  "bandExpr H d =
     (if d \<le> 86400 then 130 + d / 86400 * 60
      else if d \<le> 604800 then 210 + (d - 86400) / 518400 * 80
      else 310 + (if 0 < H then min 1 (d / H) else 1 / 2) * 80)"

section \<open>Properties\<close>

subsection \<open>Time to radius\<close>


lemma RING_BANDS_simps:
  "RING_BANDS ! 0 = \<lparr>bmin = 130, bmax = 190, spanSec = 24 * 3600\<rparr>"
  "RING_BANDS ! 1 = \<lparr>bmin = 210, bmax = 290, spanSec = 7 * 24 * 3600\<rparr>"
  "RING_BANDS ! 2 = \<lparr>bmin = 310, bmax = 390, spanSec = 0\<rparr>"
  by (simp_all add: RING_BANDS_def)

lemma radiusForTime_NaN:
  "Date_parse (starts_at_or_empty n) = None \<Longrightarrow> radiusForTime Date_parse H now n = 390"
  by (simp add: radiusForTime_def RING_BANDS_simps)

lemma radiusForTime_parsed:
  fixes Date_parse :: "jsstring \<Rightarrow> int option"
  assumes "Date_parse (starts_at_or_empty n) = Some ts"
  shows "radiusForTime Date_parse H now n =
     (if dtSec now ts \<le> 86400 then 130 + dtSec now ts / 86400 * 60
      else if dtSec now ts \<le> 604800 then 210 + (dtSec now ts - 86400) / 518400 * 80
      else 310 + (if 0 < H then min 1 (dtSec now ts / H) else 1 / 2) * 80)"
  using assms unfolding radiusForTime_def Let_def dtSec_def [symmetric]
  by (simp add: RING_BANDS_def)

lemma dtSec_nonneg: "0 \<le> dtSec now ts"
  by (simp add: dtSec_def)

lemma dtSec_mono: "t1 \<le> t2 \<Longrightarrow> dtSec now t1 \<le> dtSec now t2"
proof -
  assume "t1 \<le> t2"
  then have "(real_of_int t1 - real_of_int now) / 1000 \<le> (real_of_int t2 - real_of_int now) / 1000"
    by (simp add: divide_right_mono)
  then show ?thesis unfolding dtSec_def by (rule max.mono [OF order_refl])
qed

lemma dtSec_past: "ts \<le> now \<Longrightarrow> dtSec now ts = 0"
  by (simp add: dtSec_def max_def divide_nonpos_pos)

lemma today_range: "0 \<le> d \<Longrightarrow> d \<le> 86400 \<Longrightarrow> 130 \<le> 130 + d / 86400 * 60 \<and> 130 + d / 86400 * 60 \<le> (190::real)"
  by (simp add: field_simps)

lemma next_range: "86400 < d \<Longrightarrow> d \<le> 604800 \<Longrightarrow> 210 < 210 + (d - 86400) / 518400 * 80 \<and> 210 + (d - 86400) / 518400 * 80 \<le> (290::real)"
  by (simp add: field_simps)

lemma later_frac: "0 < d \<Longrightarrow> 0 < (if 0 < H then min 1 (d / H) else 1 / 2) \<and> (if 0 < H then min 1 (d / H) else 1 / 2) \<le> (1::real)"
  by (simp add: min_def)

lemma later_range:
  assumes "0 < (d::real)"
  shows "310 < 310 + (if 0 < H then min 1 (d / H) else 1 / 2) * 80 \<and> 310 + (if 0 < H then min 1 (d / H) else 1 / 2) * 80 \<le> (390::real)"
  using later_frac [OF assms, of H] by auto

lemma radius_parsed_range:
  fixes Date_parse :: "jsstring \<Rightarrow> int option"
  assumes "Date_parse (starts_at_or_empty n) = Some ts"
  shows "130 \<le> radiusForTime Date_parse H now n \<and> radiusForTime Date_parse H now n \<le> 390"
proof -
  let ?d = "dtSec now ts"
  note eq = radiusForTime_parsed [of Date_parse n ts H now, OF assms]
  have d0: "0 \<le> ?d" by (rule dtSec_nonneg)
  consider (today) "?d \<le> 86400" | (nxt) "86400 < ?d" "?d \<le> 604800" | (later) "604800 < ?d"
    by linarith
  then show ?thesis
  proof cases
    case today
    with today_range [OF d0 today] show ?thesis
      by (simp add: eq)
  next
    case nxt
    with next_range [OF nxt] show ?thesis
      by (simp add: eq)
  next
    case later
    then have "0 < ?d" by linarith
    from later_range [OF this, of H] later show ?thesis
      by (simp add: eq)
  qed
qed

lemma fold_max_ge: "(a::real) \<le> fold max xs a"
  by (induction xs arbitrary: a) (auto intro: order_trans [OF max.cobounded2])

lemma horizonSec_floor: "86400 \<le> horizonSec Date_parse now evs"
  using fold_max_ge [of "24 * 3600" "futureDeltas Date_parse now evs @ [24 * 3600]"]
  by (simp add: horizonSec_def)

text \<open>
  Claim C10. \<^verbatim>\<open>radiusForTime\<close> has no failing path, and for every node (time stamp
  missing, unparsable, past or arbitrarily far ahead), every clock and every horizon its
  result lies in the closed interval from 130 to 390; the horizon computed from a working
  set is at least 24 hours.
\<close>

theorem radiusForTime_total_in_range:
  "130 \<le> radiusForTime Date_parse horizon now n
   \<and> radiusForTime Date_parse horizon now n \<le> 390
   \<and> 24 * 3600 \<le> horizonSec Date_parse now0 evs"
proof (cases "Date_parse (starts_at_or_empty n)")
  case None
  then show ?thesis by (simp add: radiusForTime_NaN horizonSec_floor)
next
  case (Some ts)
  from radius_parsed_range [of Date_parse n ts horizon now, OF Some] show ?thesis
    by (simp add: horizonSec_floor)
qed

lemma insert_by_map:
  assumes "\<And>a b. cmp (g a) (g b) = cmp a b"
  shows "insert_by cmp (g x) (map g ys) = map g (insert_by cmp x ys)"
  using assms by (induction ys) simp_all

lemma Array_sort_map:
  assumes "\<And>a b. cmp (g a) (g b) = cmp a b"
  shows "Array_sort cmp (map g xs) = map g (Array_sort cmp xs)"
  unfolding Array_sort_def
  using assms by (induction xs) (simp_all add: insert_by_map)

lemma eventNodes_ignores_starts_at:
  "eventNodes (map (\<lambda>m. m\<lparr>starts_at := f m\<rparr>) nodes)
     = map (\<lambda>m. m\<lparr>starts_at := f m\<rparr>) (eventNodes nodes)"
proof -
  let ?g = "\<lambda>m::GraphNode. m\<lparr>starts_at := f m\<rparr>"
  have flt: "filter (\<lambda>n. node_type n = Some (str ''event'')) (map ?g nodes)
      = map ?g (filter (\<lambda>n. node_type n = Some (str ''event'')) nodes)"
    by (simp add: filter_map o_def)
  have srt: "Array_sort (\<lambda>a b. score b - score a) (map ?g xs)
      = map ?g (Array_sort (\<lambda>a b. score b - score a) xs)" for xs
    by (rule Array_sort_map [of "\<lambda>a b. score b - score a" ?g]) simp
  show ?thesis
    unfolding eventNodes_def Let_def flt srt by (simp add: take_map)
qed

text \<open>
  Claim C7. A node whose \<^verbatim>\<open>starts_at\<close> does not parse gets the outer edge of the Later band,
  390; so does a node without \<^verbatim>\<open>starts_at\<close>, the empty string not being a date. A time stamp
  that is not after \<open>now\<close> clamps to \<open>dt = 0\<close> and gets the inner edge of the Today band,
  130. The working set is chosen without looking at \<^verbatim>\<open>starts_at\<close>: rewriting that field
  commutes with \<^verbatim>\<open>eventNodes\<close>, so no node is excluded for it.
\<close>

theorem radiusForTime_missing_or_past:
  "(Date_parse (starts_at_or_empty n) = None \<longrightarrow> radiusForTime Date_parse H now n = 390)
   \<and> (starts_at n = None \<and> Date_parse [] = None \<longrightarrow> radiusForTime Date_parse H now n = 390)
   \<and> (Date_parse (starts_at_or_empty n) = Some ts \<and> ts \<le> now \<longrightarrow>
        dtSec now ts = 0 \<and> radiusForTime Date_parse H now n = 130)
   \<and> eventNodes (map (\<lambda>m. m\<lparr>starts_at := f m\<rparr>) nodes)
        = map (\<lambda>m. m\<lparr>starts_at := f m\<rparr>) (eventNodes nodes)"
proof (intro conjI impI)
  assume "Date_parse (starts_at_or_empty n) = None"
  then show "radiusForTime Date_parse H now n = 390" by (rule radiusForTime_NaN)
next
  assume "starts_at n = None \<and> Date_parse [] = None"
  then have "Date_parse (starts_at_or_empty n) = None"
    by (simp add: starts_at_or_empty_def)
  then show "radiusForTime Date_parse H now n = 390" by (rule radiusForTime_NaN)
next
  assume a: "Date_parse (starts_at_or_empty n) = Some ts \<and> ts \<le> now"
  then show "dtSec now ts = 0" by (simp add: dtSec_past)
  from a have "Date_parse (starts_at_or_empty n) = Some ts" and "dtSec now ts = 0"
    by (simp_all add: dtSec_past)
  then show "radiusForTime Date_parse H now n = 130"
    using radiusForTime_parsed [of Date_parse n ts H now] by simp
next
  show "eventNodes (map (\<lambda>m. m\<lparr>starts_at := f m\<rparr>) nodes)
        = map (\<lambda>m. m\<lparr>starts_at := f m\<rparr>) (eventNodes nodes)"
    by (rule eventNodes_ignores_starts_at)
qed

lemma sample_parse_simps:
  "sampleDate_parse (str ''soon'') = None"
  "sampleDate_parse [] = None"
  "sampleDate_parse (str ''2024-12-31T00:00:00Z'') = Some 1735603200000"
  "sampleDate_parse (str ''2025-01-01T02:00:00Z'') = Some 1735696800000"
  "sampleDate_parse (str ''2025-01-02T00:00:00.000Z'') = Some 1735776000000"
  "sampleDate_parse (str ''2025-01-02T00:00:00.001Z'') = Some 1735776000001"
  "sampleDate_parse (str ''2025-01-08T00:00:00.000Z'') = Some 1736294400000"
  "sampleDate_parse (str ''2025-01-08T00:00:00.001Z'') = Some 1736294400001"
  "sampleDate_parse (str ''2025-01-09T00:00:00Z'') = Some 1736380800000"
  "sampleDate_parse (str ''2025-01-17T00:00:00Z'') = Some 1737072000000"
  by (simp_all add: sampleDate_parse_def str_def)

lemma sample_starts_at:
  "starts_at_or_empty (sampleEvent i sc st) = str st"
  "starts_at_or_empty (sampleNode a b sc None) = []"
  "starts_at (sampleNode a b sc None) = None"
  by (simp_all add: starts_at_or_empty_def sampleEvent_def sampleNode_def)

theorem radiusForTime_missing_or_past_witness:
  "radiusForTime sampleDate_parse 86400 sampleNow (sampleEvent ''event:1'' 1 ''soon'') = 390
   \<and> radiusForTime sampleDate_parse 86400 sampleNow
        (sampleNode (Some ''event:2'') (Some ''event'') 1 None) = 390
   \<and> radiusForTime sampleDate_parse 86400 sampleNow
        (sampleEvent ''event:3'' 1 ''2024-12-31T00:00:00Z'') = 130"
  using
    radiusForTime_missing_or_past [of sampleDate_parse "sampleEvent ''event:1'' 1 ''soon''"
      86400 sampleNow]
    radiusForTime_missing_or_past [of sampleDate_parse
      "sampleNode (Some ''event:2'') (Some ''event'') 1 None" 86400 sampleNow]
    radiusForTime_missing_or_past [of sampleDate_parse
      "sampleEvent ''event:3'' 1 ''2024-12-31T00:00:00Z''" 86400 sampleNow 1735603200000]
  by (simp add: sample_starts_at sample_parse_simps sampleNow_def)

lemma bandExpr_today: "0 \<le> d \<Longrightarrow> d \<le> 86400 \<Longrightarrow> 130 \<le> bandExpr H d \<and> bandExpr H d \<le> 190"
  using today_range [of d] by (simp add: bandExpr_def)

lemma bandExpr_next: "86400 < d \<Longrightarrow> d \<le> 604800 \<Longrightarrow> 210 < bandExpr H d \<and> bandExpr H d \<le> 290"
  using next_range [of d] by (simp add: bandExpr_def)

lemma bandExpr_later: "604800 < d \<Longrightarrow> 310 < bandExpr H d \<and> bandExpr H d \<le> 390"
  using later_range [of d H] by (simp add: bandExpr_def)

lemma later_mono:
  assumes "(d1::real) \<le> d2"
  shows "(if 0 < H then min 1 (d1 / H) else 1 / 2) \<le> (if 0 < H then min 1 (d2 / H) else 1 / 2)"
proof (cases "0 < H")
  case True
  with assms have "d1 / H \<le> d2 / H" by (simp add: divide_right_mono)
  then have "min 1 (d1 / H) \<le> min 1 (d2 / H)" by (rule min.mono [OF order_refl])
  with True show ?thesis by simp
next
  case False
  then show ?thesis by simp
qed

lemma bandExpr_mono:
  assumes d0: "0 \<le> d1" and le: "d1 \<le> d2"
  shows "bandExpr H d1 \<le> bandExpr H d2"
proof -
  consider (t) "d2 \<le> 86400"
    | (tn) "d1 \<le> 86400" "86400 < d2" "d2 \<le> 604800"
    | (tl) "d1 \<le> 86400" "604800 < d2"
    | (n) "86400 < d1" "d2 \<le> 604800"
    | (nl) "86400 < d1" "d1 \<le> 604800" "604800 < d2"
    | (l) "604800 < d1"
    using le by linarith
  then show ?thesis
  proof cases
    case t
    with le have "d1 \<le> 86400" by linarith
    with t le show ?thesis by (simp add: bandExpr_def divide_right_mono)
  next
    case tn
    from bandExpr_today [OF d0 tn(1), of H] bandExpr_next [OF tn(2,3), of H]
    show ?thesis by linarith
  next
    case tl
    from bandExpr_today [OF d0 tl(1), of H] bandExpr_later [OF tl(2), of H]
    show ?thesis by linarith
  next
    case n
    with le have "86400 < d2" "d1 \<le> 604800" by linarith+
    with n le show ?thesis by (simp add: bandExpr_def divide_right_mono)
  next
    case nl
    from bandExpr_next [OF nl(1,2), of H] bandExpr_later [OF nl(3), of H]
    show ?thesis by linarith
  next
    case l
    with le have l2: "604800 < d2" by linarith
    from later_mono [OF le, of H] l l2 show ?thesis by (simp add: bandExpr_def)
  qed
qed

lemma radiusForTime_bandExpr:
  fixes Date_parse :: "jsstring \<Rightarrow> int option"
  assumes "Date_parse (starts_at_or_empty n) = Some ts"
  shows "radiusForTime Date_parse H now n = bandExpr H (dtSec now ts)"
  using radiusForTime_parsed [of Date_parse n ts H now, OF assms] by (simp add: bandExpr_def)

text \<open>
  Claim C4, as amended. For parsed time stamps \<open>t1 \<le> t2\<close> (one clock, one horizon) the radius
  of the earlier is at most the radius of the later: \<^verbatim>\<open>radiusForTime\<close> is non-decreasing on
  the Today band, and on every other band and across them. It is not continuous at the band
  boundaries: a time stamp up to 24 hours ahead has radius at most 190 and every later one
  more than 210; a time stamp up to 7 days ahead has radius at most 290 and every later one
  more than 310.
\<close>

theorem radiusForTime_monotone_with_gaps:
  fixes Date_parse :: "jsstring \<Rightarrow> int option"
  assumes p1: "Date_parse (starts_at_or_empty n1) = Some t1"
    and p2: "Date_parse (starts_at_or_empty n2) = Some t2"
    and le: "t1 \<le> t2"
  shows "radiusForTime Date_parse H now n1 \<le> radiusForTime Date_parse H now n2
    \<and> (dtSec now t1 \<le> 86400 \<and> 86400 < dtSec now t2 \<longrightarrow>
          radiusForTime Date_parse H now n1 \<le> 190
          \<and> 210 < radiusForTime Date_parse H now n2)
    \<and> (dtSec now t1 \<le> 604800 \<and> 604800 < dtSec now t2 \<longrightarrow>
          radiusForTime Date_parse H now n1 \<le> 290
          \<and> 310 < radiusForTime Date_parse H now n2)"
proof -
  let ?d1 = "dtSec now t1" and ?d2 = "dtSec now t2"
  note e1 = radiusForTime_bandExpr [of Date_parse n1 t1 H now, OF p1]
  note e2 = radiusForTime_bandExpr [of Date_parse n2 t2 H now, OF p2]
  have d0: "0 \<le> ?d1" by (rule dtSec_nonneg)
  have dle: "?d1 \<le> ?d2" using le by (rule dtSec_mono)
  have mono: "bandExpr H ?d1 \<le> bandExpr H ?d2" using d0 dle by (rule bandExpr_mono)
  have gap1: "bandExpr H ?d1 \<le> 190 \<and> 210 < bandExpr H ?d2"
    if "?d1 \<le> 86400" "86400 < ?d2"
  proof (cases "?d2 \<le> 604800")
    case True
    from bandExpr_today [OF d0 that(1), of H] bandExpr_next [OF that(2) True, of H]
    show ?thesis by linarith
  next
    case False
    then have "604800 < ?d2" by linarith
    from bandExpr_today [OF d0 that(1), of H] bandExpr_later [OF this, of H]
    show ?thesis by linarith
  qed
  have gap2: "bandExpr H ?d1 \<le> 290 \<and> 310 < bandExpr H ?d2"
    if "?d1 \<le> 604800" "604800 < ?d2"
  proof (cases "?d1 \<le> 86400")
    case True
    from bandExpr_today [OF d0 True, of H] bandExpr_later [OF that(2), of H]
    show ?thesis by linarith
  next
    case False
    then have "86400 < ?d1" by linarith
    from bandExpr_next [OF this that(1), of H] bandExpr_later [OF that(2), of H]
    show ?thesis by linarith
  qed
  from mono gap1 gap2 show ?thesis unfolding e1 e2 by blast
qed



lemma fold_max_Max: "fold max xs (a::real) = Max (insert a (set xs))"
  using Max.set_eq_fold [of a xs] by simp

lemma horizonSec_Max:
  "horizonSec Date_parse now evs = Max (insert 86400 (set (futureDeltas Date_parse now evs)))"
  by (simp add: horizonSec_def fold_max_Max)

lemma set_futureDeltas:
  "set (futureDeltas Date_parse now evs) =
     {(real_of_int ts' - real_of_int now) / 1000 | ts' m.
        m \<in> set evs \<and> Date_parse (starts_at_or_empty m) = Some ts' \<and> now < ts'}"
  unfolding futureDeltas_def
  by (auto split: option.splits) force

lemma dtSec_le_horizonSec:
  fixes Date_parse :: "jsstring \<Rightarrow> int option"
  assumes "n \<in> set evs" and "Date_parse (starts_at_or_empty n) = Some ts"
  shows "dtSec now ts \<le> horizonSec Date_parse now evs"
proof (cases "now < ts")
  case True
  with assms have "(real_of_int ts - real_of_int now) / 1000 \<in> set (futureDeltas Date_parse now evs)"
    unfolding set_futureDeltas by blast
  then have "(real_of_int ts - real_of_int now) / 1000 \<le> horizonSec Date_parse now evs"
    unfolding horizonSec_Max by (intro Max_ge) simp_all
  moreover have "(0::real) \<le> horizonSec Date_parse now evs"
    using horizonSec_floor [of Date_parse now evs] by linarith
  ultimately show ?thesis by (simp add: dtSec_def)
next
  case False
  then have "dtSec now ts = 0" by (simp add: dtSec_past)
  with horizonSec_floor [of Date_parse now evs] show ?thesis by linarith
qed

text \<open>
  Claim C1, as amended. For a parsed time stamp with \<open>dt\<close> seconds to go (clamped at 0):
  on the Today band \<open>[0, 24h]\<close> and the Next-7-days band \<open>(24h, 7d]\<close> the radius is the
  linear interpolation on the fractional position within the band, into \<open>[130, 190]\<close> and
  \<open>(210, 290]\<close>; on the Later band the radius is \<open>310 + min 1 (dt / horizon) * 80\<close>, in
  \<open>(310, 390]\<close>, which for \<open>dt \<le> horizon\<close> interpolates on the position of \<open>dt\<close> in
  \<open>[0, horizon]\<close>, not in \<open>(7d, horizon]\<close>. The horizon of a working set is the greatest of
  24 hours and the future deltas of its nodes, so it bounds \<open>dt\<close> of each of them when
  both are read at the same clock. A time stamp two hours after \<open>now\<close> has its radius
  strictly between 130 and 190.
\<close>

theorem radiusForTime_bands:
  fixes Date_parse :: "jsstring \<Rightarrow> int option"
  assumes parsed: "Date_parse (starts_at_or_empty n) = Some ts"
  shows
    "(dtSec now ts \<le> 24 * 3600 \<longrightarrow>
        radiusForTime Date_parse H now n = spec_radius H (dtSec now ts)
        \<and> 130 \<le> radiusForTime Date_parse H now n \<and> radiusForTime Date_parse H now n \<le> 190)
     \<and> (24 * 3600 < dtSec now ts \<and> dtSec now ts \<le> 7 * 24 * 3600 \<longrightarrow>
        radiusForTime Date_parse H now n = spec_radius H (dtSec now ts)
        \<and> 210 < radiusForTime Date_parse H now n \<and> radiusForTime Date_parse H now n \<le> 290)
     \<and> (7 * 24 * 3600 < dtSec now ts \<and> 0 < H \<longrightarrow>
        radiusForTime Date_parse H now n = 310 + min 1 (dtSec now ts / H) * (390 - 310)
        \<and> 310 < radiusForTime Date_parse H now n \<and> radiusForTime Date_parse H now n \<le> 390)
     \<and> (7 * 24 * 3600 < dtSec now ts \<and> dtSec now ts \<le> H \<longrightarrow>
        radiusForTime Date_parse H now n
          = 310 + fractionalPosition 0 H (dtSec now ts) * (390 - 310))
     \<and> horizonSec Date_parse now evs =
         Max (insert (24 * 3600)
           {(real_of_int ts' - real_of_int now) / 1000 | ts' m.
              m \<in> set evs \<and> Date_parse (starts_at_or_empty m) = Some ts' \<and> now < ts'})
     \<and> (n \<in> set evs \<longrightarrow> dtSec now ts \<le> horizonSec Date_parse now evs)
     \<and> (ts = now + 2 * 3600 * 1000 \<longrightarrow>
          130 < radiusForTime Date_parse H now n \<and> radiusForTime Date_parse H now n < 190)"
proof -
  let ?d = "dtSec now ts" and ?r = "radiusForTime Date_parse H now n"
  note eq = radiusForTime_bandExpr [of Date_parse n ts H now, OF parsed]
  have d0: "0 \<le> ?d" by (rule dtSec_nonneg)
  have today: "?r = spec_radius H ?d \<and> 130 \<le> ?r \<and> ?r \<le> 190" if "?d \<le> 24 * 3600"
  proof -
    from that have le: "?d \<le> 86400" by simp
    then have "bandExpr H ?d = spec_radius H ?d"
      by (simp add: bandExpr_def spec_radius_def fractionalPosition_def)
    with bandExpr_today [OF d0 le, of H] show ?thesis by (simp add: eq)
  qed
  have nxt: "?r = spec_radius H ?d \<and> 210 < ?r \<and> ?r \<le> 290"
    if "24 * 3600 < ?d \<and> ?d \<le> 7 * 24 * 3600"
  proof -
    from that have b: "86400 < ?d" "?d \<le> 604800" by simp_all
    then have "bandExpr H ?d = spec_radius H ?d"
      by (simp add: bandExpr_def spec_radius_def fractionalPosition_def)
    with bandExpr_next [OF b, of H] show ?thesis by (simp add: eq)
  qed
  have later: "?r = 310 + min 1 (?d / H) * (390 - 310) \<and> 310 < ?r \<and> ?r \<le> 390"
    if "7 * 24 * 3600 < ?d \<and> 0 < H"
  proof -
    from that have b: "604800 < ?d" "0 < H" by simp_all
    then have "bandExpr H ?d = 310 + min 1 (?d / H) * (390 - 310)"
      by (simp add: bandExpr_def)
    with bandExpr_later [OF b(1), of H] show ?thesis by (simp add: eq)
  qed
  have inband: "?r = 310 + fractionalPosition 0 H ?d * (390 - 310)"
    if "7 * 24 * 3600 < ?d \<and> ?d \<le> H"
  proof -
    from that have b: "604800 < ?d" "?d \<le> H" by simp_all
    then have H0: "0 < H" by linarith
    with b have "?d / H \<le> 1" by simp
    then have "min 1 (?d / H) = ?d / H" by simp
    with b H0 show ?thesis by (simp add: eq bandExpr_def fractionalPosition_def)
  qed
  have hor: "horizonSec Date_parse now evs =
         Max (insert (24 * 3600)
           {(real_of_int ts' - real_of_int now) / 1000 | ts' m.
              m \<in> set evs \<and> Date_parse (starts_at_or_empty m) = Some ts' \<and> now < ts'})"
    by (simp add: horizonSec_Max set_futureDeltas)
  have mem: "?d \<le> horizonSec Date_parse now evs" if "n \<in> set evs"
    using that parsed by (rule dtSec_le_horizonSec)
  have two: "130 < ?r \<and> ?r < 190" if "ts = now + 2 * 3600 * 1000"
  proof -
    from that have "?d = 7200" by (simp add: dtSec_def)
    then show ?thesis by (simp add: eq bandExpr_def)
  qed
  from today nxt later inband hor mem two show ?thesis by blast
qed



lemma horizonSec_sample:
  "horizonSec sampleDate_parse sampleNow
     [sampleEvent ''event:8'' 2 ''2025-01-09T00:00:00Z'',
      sampleEvent ''event:16'' 1 ''2025-01-17T00:00:00Z''] = 1382400"
  by (simp add: horizonSec_def futureDeltas_def sample_starts_at sample_parse_simps sampleNow_def)

theorem radiusForTime_bands_witness:
  "radiusForTime sampleDate_parse 1382400 sampleNow
      (sampleEvent ''event:1'' 1 ''2025-01-01T02:00:00Z'') = 135
   \<and> radiusForTime sampleDate_parse 1382400 sampleNow
      (sampleEvent ''event:2'' 1 ''2025-01-08T00:00:00.000Z'') = 290
   \<and> radiusForTime sampleDate_parse 1382400 sampleNow
      (sampleEvent ''event:8'' 2 ''2025-01-09T00:00:00Z'') = 350"
  using
    radiusForTime_bands [of sampleDate_parse
      "sampleEvent ''event:1'' 1 ''2025-01-01T02:00:00Z''" 1735696800000 sampleNow 1382400]
    radiusForTime_bands [of sampleDate_parse
      "sampleEvent ''event:2'' 1 ''2025-01-08T00:00:00.000Z''" 1736294400000 sampleNow 1382400]
    radiusForTime_bands [of sampleDate_parse
      "sampleEvent ''event:8'' 2 ''2025-01-09T00:00:00Z''" 1736380800000 sampleNow 1382400]
  by (simp add: sample_starts_at sample_parse_simps sampleNow_def dtSec_def spec_radius_def
      fractionalPosition_def)

text \<open>
  Claim C1 as stated fails on the Later band: with a working set of two events 8 and 16 days
  ahead the horizon is 16 days, and the event 8 days ahead gets radius 350, while the
  interpolation on its fractional position in \<open>(7d, horizon]\<close> is \<open>2870 / 9\<close>.
\<close>

theorem later_band_not_fractional_position:
  "radiusForTime sampleDate_parse
      (horizonSec sampleDate_parse sampleNow
         [sampleEvent ''event:8'' 2 ''2025-01-09T00:00:00Z'',
          sampleEvent ''event:16'' 1 ''2025-01-17T00:00:00Z''])
      sampleNow (sampleEvent ''event:8'' 2 ''2025-01-09T00:00:00Z'') = 350
   \<and> spec_radius
      (horizonSec sampleDate_parse sampleNow
         [sampleEvent ''event:8'' 2 ''2025-01-09T00:00:00Z'',
          sampleEvent ''event:16'' 1 ''2025-01-17T00:00:00Z''])
      (dtSec sampleNow 1736380800000) = 2870 / 9"
  unfolding horizonSec_sample
  by (simp add: radiusForTime_parsed [of sampleDate_parse _ 1736380800000]
      sample_starts_at sample_parse_simps sampleNow_def dtSec_def spec_radius_def
      fractionalPosition_def)

theorem radiusForTime_monotone_with_gaps_witness:
  "radiusForTime sampleDate_parse 1382400 sampleNow
      (sampleEvent ''event:1'' 1 ''2025-01-02T00:00:00.000Z'')
     \<le> radiusForTime sampleDate_parse 1382400 sampleNow
      (sampleEvent ''event:2'' 1 ''2025-01-02T00:00:00.001Z'')
   \<and> 210 < radiusForTime sampleDate_parse 1382400 sampleNow
      (sampleEvent ''event:2'' 1 ''2025-01-02T00:00:00.001Z'')
   \<and> radiusForTime sampleDate_parse 1382400 sampleNow
      (sampleEvent ''event:3'' 1 ''2025-01-08T00:00:00.000Z'') \<le> 290
   \<and> 310 < radiusForTime sampleDate_parse 1382400 sampleNow
      (sampleEvent ''event:4'' 1 ''2025-01-08T00:00:00.001Z'')"
  using
    radiusForTime_monotone_with_gaps [of sampleDate_parse
      "sampleEvent ''event:1'' 1 ''2025-01-02T00:00:00.000Z''" 1735776000000
      "sampleEvent ''event:2'' 1 ''2025-01-02T00:00:00.001Z''" 1735776000001
      1382400 sampleNow]
    radiusForTime_monotone_with_gaps [of sampleDate_parse
      "sampleEvent ''event:3'' 1 ''2025-01-08T00:00:00.000Z''" 1736294400000
      "sampleEvent ''event:4'' 1 ''2025-01-08T00:00:00.001Z''" 1736294400001
      1382400 sampleNow]
  by (simp add: sample_starts_at sample_parse_simps sampleNow_def dtSec_def)

text \<open>
  Claim C4 as stated fails at the boundaries: two time stamps one millisecond apart, at 24
  hours and just after, have radius 190 and more than 210; at 7 days and just after, 290
  and more than 310.
\<close>

theorem radius_jumps_at_band_boundary:
  "radiusForTime sampleDate_parse 1382400 sampleNow
      (sampleEvent ''event:1'' 1 ''2025-01-02T00:00:00.000Z'') = 190
   \<and> radiusForTime sampleDate_parse 1382400 sampleNow
      (sampleEvent ''event:2'' 1 ''2025-01-02T00:00:00.001Z'') = 210 + 1 / 6480000
   \<and> radiusForTime sampleDate_parse 1382400 sampleNow
      (sampleEvent ''event:3'' 1 ''2025-01-08T00:00:00.000Z'') = 290
   \<and> 310 < radiusForTime sampleDate_parse 1382400 sampleNow
      (sampleEvent ''event:4'' 1 ''2025-01-08T00:00:00.001Z'')"
  by (simp add: radiusForTime_parsed [of sampleDate_parse _ 1735776000000]
      radiusForTime_parsed [of sampleDate_parse _ 1735776000001]
      radiusForTime_parsed [of sampleDate_parse _ 1736294400000]
      radiusForTime_parsed [of sampleDate_parse _ 1736294400001]
      sample_starts_at sample_parse_simps sampleNow_def dtSec_def)

subsection \<open>The working set\<close>



lemma insert_by_insort:
  "insert_by (\<lambda>a b. score b - score a) x ys = insort_key (\<lambda>n. - score n) x ys"
  by (induction ys) simp_all

lemma Array_sort_sort_key:
  "Array_sort (\<lambda>a b. score b - score a) xs = sort_key (\<lambda>n. - score n) xs"
  unfolding Array_sort_def sort_key_def
  by (induction xs) (simp_all add: insert_by_insort)

lemma eventNodes_sort_key:
  "eventNodes nodes =
     take 10 (sort_key (\<lambda>n. - score n) (filter (\<lambda>n. node_type n = Some (str ''event'')) nodes))"
  by (simp add: eventNodes_def Array_sort_sort_key)

lemma sorted_desc:
  "sorted_wrt (\<lambda>a b. score b \<le> score a) (sort_key (\<lambda>n. - score n) xs)"
proof -
  have "sorted (map (\<lambda>n. - score n) (sort_key (\<lambda>n. - score n) xs))" by (rule sorted_sort_key)
  then show ?thesis by (simp add: sorted_map neg_le_iff_le)
qed

lemma stable_desc:
  "filter (\<lambda>n. score n = c) (sort_key (\<lambda>n. - score n) xs) = filter (\<lambda>n. score n = c) xs"
  using sort_key_stable [of "\<lambda>n. - score n" "- c" xs] by simp

lemma take_drop_sorted:
  assumes "sorted_wrt (\<lambda>a b. score b \<le> score a) xs"
  shows "\<forall>a\<in>set (take k xs). \<forall>b\<in>set (drop k xs). score b \<le> score a"
proof -
  have "sorted_wrt (\<lambda>a b. score b \<le> score a) (take k xs @ drop k xs)" using assms by simp
  then show ?thesis unfolding sorted_wrt_append by blast
qed

text \<open>
  Claim C3. The working set is the first ten entries of a ranking of exactly the payload's
  nodes of type \<^verbatim>\<open>event\<close> (same nodes, same multiplicities; no other field is looked at):
  the ranking is in descending order of score, nodes of equal score keep their payload
  order, so every node left out scores at most as much as every node kept, and the working
  set has ten nodes or all event nodes if there are fewer.
\<close>

theorem eventNodes_top10:
  "\<exists>ranked.
      eventNodes nodes = take 10 ranked
    \<and> mset ranked = mset (filter (\<lambda>n. node_type n = Some (str ''event'')) nodes)
    \<and> sorted_wrt (\<lambda>a b. score b \<le> score a) ranked
    \<and> (\<forall>c. filter (\<lambda>n. score n = c) ranked
            = filter (\<lambda>n. score n = c)
                (filter (\<lambda>n. node_type n = Some (str ''event'')) nodes))
    \<and> (\<forall>a\<in>set (eventNodes nodes). \<forall>b\<in>set (drop 10 ranked). score b \<le> score a)
    \<and> length (eventNodes nodes)
        = min 10 (length (filter (\<lambda>n. node_type n = Some (str ''event'')) nodes))"
proof -
  let ?evs = "filter (\<lambda>n. node_type n = Some (str ''event'')) nodes"
  let ?ranked = "sort_key (\<lambda>n. - score n) ?evs"
  have e: "eventNodes nodes = take 10 ?ranked" by (rule eventNodes_sort_key)
  have m: "mset ?ranked = mset ?evs" by simp
  have s: "sorted_wrt (\<lambda>a b. score b \<le> score a) ?ranked" by (rule sorted_desc)
  have st: "\<forall>c. filter (\<lambda>n. score n = c) ?ranked = filter (\<lambda>n. score n = c) ?evs"
    by (simp add: stable_desc)
  have t: "\<forall>a\<in>set (eventNodes nodes). \<forall>b\<in>set (drop 10 ?ranked). score b \<le> score a"
    unfolding e using s by (rule take_drop_sorted)
  have l: "length (eventNodes nodes) = min 10 (length ?evs)"
    unfolding e by (simp add: min.commute)
  from e m s st t l show ?thesis by blast
qed

lemma str_event_neq: "str ''person'' \<noteq> str ''event''"
  by (simp add: str_def)

lemma sample_fields:
  "node_type (scored i sc) = Some (str ''event'')"
  "score (scored i sc) = sc"
  "node_type (sampleNode a (Some ''person'') sc st) = Some (str ''person'')"
  "node_type (sampleNode a None sc st) = None"
  "score (sampleNode a b sc st) = sc"
  by (simp_all add: scored_def sampleEvent_def sampleNode_def)

lemma eventNodes_descending15:
  "eventNodes descending15 = take 10 descending15"
  by (simp add: eventNodes_def Array_sort_def descending15_def sample_fields)

lemma eventNodes_tiedPayload:
  "eventNodes tiedPayload =
     [scored ''event:10'' 10, scored ''event:9'' 9, scored ''event:8'' 8, scored ''event:7'' 7,
      scored ''event:6'' 6, scored ''event:5'' 5, scored ''event:4'' 4, scored ''event:3'' 3,
      scored ''event:2'' 2, scored ''event:a'' 1]"
  by (simp add: eventNodes_def Array_sort_def tiedPayload_def sample_fields str_event_neq)

theorem eventNodes_top10_witness:
  "eventNodes descending15 = take 10 descending15
   \<and> eventNodes tiedPayload =
     [scored ''event:10'' 10, scored ''event:9'' 9, scored ''event:8'' 8, scored ''event:7'' 7,
      scored ''event:6'' 6, scored ''event:5'' 5, scored ''event:4'' 4, scored ''event:3'' 3,
      scored ''event:2'' 2, scored ''event:a'' 1]
   \<and> length (eventNodes tiedPayload) = 10"
  using eventNodes_top10 [of descending15] eventNodes_top10 [of tiedPayload]
  by (simp add: eventNodes_descending15 eventNodes_tiedPayload)



lemma node_type_enrich: "node_type (enrich n) = node_type n"
  by (simp add: enrich_def Let_def)

lemma score_enrich: "score (enrich n) = score n"
  by (simp add: enrich_def Let_def)

lemma filter_events_enriched:
  "filter (\<lambda>n. node_type n = Some (str ''event'')) (enriched nodes)
     = map enrich (filter (\<lambda>n. node_type n = Some (str ''event'')) nodes)"
  by (simp add: enriched_def filter_map o_def node_type_enrich)

lemma filter_events_typed:
  "filter (\<lambda>n. node_type n = Some (str ''event'')) (filter (\<lambda>n. node_type n \<noteq> None) nodes)
     = filter (\<lambda>n. node_type n = Some (str ''event'')) nodes"
  by (induction nodes) auto

lemma eventNodes_filter:
  "eventNodes nodes = eventNodes (filter (\<lambda>n. node_type n = Some (str ''event'')) nodes)"
  by (simp add: eventNodes_def)

lemma node_id_enrich: "node_id (enrich n) = node_id n"
  by (simp add: enrich_def Let_def)

lemma length_enriched: "length (enriched nodes) = length nodes"
  by (simp add: enriched_def)

lemma angleForEvent_IdString:
  "node_id n = IdString s \<Longrightarrow>
   angleForEvent n
     = Inr (valueOf (dmul (dmul (dfrac (dmul (ofNat (nat \<bar>hashStr s\<bar>)) PHI)) Math_PI) (ofNat 2)))"
  by (simp add: angleForEvent_def Let_def)

text \<open>
  Claim C8, as amended. A node without type is excluded from the working set rather than
  aborting the render: every node of the working set has type \<^verbatim>\<open>event\<close>, so a node without
  type never appears; enrichment keeps every node of the payload and raises nothing; the
  payload without its type-less nodes has the same working set, so the remaining nodes are
  ranked as usual; and when the nodes of type \<^verbatim>\<open>event\<close> have string ids, every node of the
  working set gets its angle, whatever the type-less nodes lack. Nothing is said here about
  a node that lacks only its id.
\<close>

theorem working_set_excludes_untyped:
  "(\<forall>m\<in>set (eventNodes (enriched nodes)). node_type m = Some (str ''event''))
   \<and> length (enriched nodes) = length nodes
   \<and> eventNodes (enriched (filter (\<lambda>m. node_type m \<noteq> None) nodes)) = eventNodes (enriched nodes)
   \<and> ((\<forall>m\<in>set nodes. node_type m = Some (str ''event'') \<longrightarrow> (\<exists>s. node_id m = IdString s))
       \<longrightarrow> (\<forall>m\<in>set (eventNodes (enriched nodes)). \<exists>r. angleForEvent m = Inr r))"
proof (intro conjI ballI impI)
  fix m assume "m \<in> set (eventNodes (enriched nodes))"
  then have "m \<in> set (sort_key (\<lambda>n. - score n)
      (filter (\<lambda>n. node_type n = Some (str ''event'')) (enriched nodes)))"
    unfolding eventNodes_sort_key by (rule in_set_takeD)
  then show "node_type m = Some (str ''event'')" by simp
next
  show "length (enriched nodes) = length nodes" by (rule length_enriched)
next
  have "filter (\<lambda>n. node_type n = Some (str ''event''))
          (enriched (filter (\<lambda>m. node_type m \<noteq> None) nodes))
      = filter (\<lambda>n. node_type n = Some (str ''event'')) (enriched nodes)"
    unfolding filter_events_enriched filter_events_typed ..
  then show "eventNodes (enriched (filter (\<lambda>m. node_type m \<noteq> None) nodes))
      = eventNodes (enriched nodes)"
    using eventNodes_filter [of "enriched nodes"]
      eventNodes_filter [of "enriched (filter (\<lambda>m. node_type m \<noteq> None) nodes)"]
    by simp
next
  fix m
  assume ids: "\<forall>m\<in>set nodes. node_type m = Some (str ''event'') \<longrightarrow> (\<exists>s. node_id m = IdString s)"
    and m: "m \<in> set (eventNodes (enriched nodes))"
  from m have "m \<in> set (sort_key (\<lambda>n. - score n)
      (filter (\<lambda>n. node_type n = Some (str ''event'')) (enriched nodes)))"
    unfolding eventNodes_sort_key by (rule in_set_takeD)
  then have "m \<in> set (map enrich (filter (\<lambda>n. node_type n = Some (str ''event'')) nodes))"
    by (simp add: filter_events_enriched)
  then obtain m0 where m0: "m0 \<in> set nodes" "node_type m0 = Some (str ''event'')" "m = enrich m0"
    by auto
  with ids obtain s where "node_id m0 = IdString s" by blast
  then have "node_id m = IdString s" by (simp add: m0(3) node_id_enrich)
  then show "\<exists>r. angleForEvent m = Inr r" by (simp add: angleForEvent_IdString)
qed

lemma enrich_scored:
  "enrich (scored ''event:2'' 2) = (scored ''event:2'' 2)\<lparr>event_id := Some (str ''2'')\<rparr>"
  by (simp add: enrich_def scored_def sampleEvent_def sampleNode_def String_of_id_def
      startsWith_def str_def)

lemma eventNodes_untyped_payload:
  "eventNodes (enriched
      [sampleNode None None 50 None, scored ''event:2'' 2,
       sampleNode (Some ''person:7'') (Some ''person'') 100 None])
     = [(scored ''event:2'' 2)\<lparr>event_id := Some (str ''2'')\<rparr>]"
  by (simp add: sample_fields enrich_scored str_event_neq enriched_def eventNodes_def
      Array_sort_def node_type_enrich)

theorem working_set_excludes_untyped_witness:
  "eventNodes (enriched
      [sampleNode None None 50 None, scored ''event:2'' 2,
       sampleNode (Some ''person:7'') (Some ''person'') 100 None])
     = [(scored ''event:2'' 2)\<lparr>event_id := Some (str ''2'')\<rparr>]
   \<and> eventNodes (enriched
      [scored ''event:2'' 2, sampleNode (Some ''person:7'') (Some ''person'') 100 None])
     = [(scored ''event:2'' 2)\<lparr>event_id := Some (str ''2'')\<rparr>]
   \<and> node_type ((scored ''event:2'' 2)\<lparr>event_id := Some (str ''2'')\<rparr>) = Some (str ''event'')
   \<and> (\<exists>r. angleForEvent ((scored ''event:2'' 2)\<lparr>event_id := Some (str ''2'')\<rparr>) = Inr r)"
proof -
  let ?payload = "[sampleNode None None 50 None, scored ''event:2'' 2,
       sampleNode (Some ''person:7'') (Some ''person'') 100 None]"
  let ?kept = "(scored ''event:2'' 2)\<lparr>event_id := Some (str ''2'')\<rparr>"
  note T = working_set_excludes_untyped [of ?payload]
  have ws: "eventNodes (enriched ?payload) = [?kept]" by (rule eventNodes_untyped_payload)
  have ids: "\<forall>m\<in>set ?payload. node_type m = Some (str ''event'') \<longrightarrow> (\<exists>s. node_id m = IdString s)"
    by (simp add: sample_fields str_event_neq scored_def sampleEvent_def sampleNode_def)
  from T have ty: "\<forall>m\<in>set (eventNodes (enriched ?payload)). node_type m = Some (str ''event'')"
    by blast
  from T have same: "eventNodes (enriched (filter (\<lambda>m. node_type m \<noteq> None) ?payload))
      = eventNodes (enriched ?payload)"
    by blast
  from T ids have ang: "\<forall>m\<in>set (eventNodes (enriched ?payload)). \<exists>r. angleForEvent m = Inr r"
    by blast
  have flt: "filter (\<lambda>m. node_type m \<noteq> None) ?payload
      = [scored ''event:2'' 2, sampleNode (Some ''person:7'') (Some ''person'') 100 None]"
    by (simp add: sample_fields)
  from ty have a: "node_type ?kept = Some (str ''event'')" unfolding ws by simp
  from ang have b: "\<exists>r. angleForEvent ?kept = Inr r" unfolding ws by simp
  from same have c: "eventNodes (enriched
      [scored ''event:2'' 2, sampleNode (Some ''person:7'') (Some ''person'') 100 None])
     = [?kept]"
    unfolding flt ws .
  from ws a b c show ?thesis by simp
qed

lemma enrich_without_id:
  "enrich (sampleNode None (Some ''event'') sc st)
     = (sampleNode None (Some ''event'') sc st)\<lparr>event_id := Some (str ''undefined'')\<rparr>"
  by (simp add: enrich_def sampleNode_def String_of_id_def startsWith_def str_def)

lemma enrich_null_id:
  "enrich ((sampleNode None (Some ''event'') sc st)\<lparr>node_id := IdNull\<rparr>)
     = (sampleNode None (Some ''event'') sc st)
         \<lparr>node_id := IdNull, event_id := Some (str ''null'')\<rparr>"
  by (simp add: enrich_def sampleNode_def String_of_id_def startsWith_def str_def)

text \<open>
  Claim C8 as stated fails for a missing id. An event node whose id is absent is enriched
  with the event id \<^verbatim>\<open>"undefined"\<close> (\<^verbatim>\<open>"null"\<close> when the id is \<^verbatim>\<open>null\<close>) and is the working set
  of its payload, so it is not excluded; and its angle raises \<^verbatim>\<open>TypeError\<close>.
\<close>

theorem node_without_id_stays_in_working_set:
  "eventNodes (enriched [sampleNode None (Some ''event'') 1 None])
     = [(sampleNode None (Some ''event'') 1 None)\<lparr>event_id := Some (str ''undefined'')\<rparr>]
   \<and> angleForEvent
        ((sampleNode None (Some ''event'') 1 None)\<lparr>event_id := Some (str ''undefined'')\<rparr>)
     = Inl TypeError
   \<and> eventNodes (enriched [(sampleNode None (Some ''event'') 1 None)\<lparr>node_id := IdNull\<rparr>])
     = [(sampleNode None (Some ''event'') 1 None)
          \<lparr>node_id := IdNull, event_id := Some (str ''null'')\<rparr>]
   \<and> angleForEvent
        ((sampleNode None (Some ''event'') 1 None)
          \<lparr>node_id := IdNull, event_id := Some (str ''null'')\<rparr>)
     = Inl TypeError"
proof -
  have ty: "node_type (sampleNode None (Some ''event'') 1 None) = Some (str ''event'')"
    and noid: "node_id (sampleNode None (Some ''event'') 1 None) = IdAbsent"
    by (simp_all add: sampleNode_def)
  show ?thesis
    by (simp add: enriched_def enrich_without_id enrich_null_id eventNodes_def Array_sort_def
        angleForEvent_def ty noid)
qed

lemma Math_min_const:
  assumes "xs \<noteq> []" and "\<forall>x\<in>set xs. x = Num c"
  shows "Math_min xs = Num c"
proof -
  have "fold (\<lambda>x acc. js_min acc x) xs (Num c) = Num c" if "\<forall>x\<in>set xs. x = Num c" for xs
    using that by (induction xs) simp_all
  with assms show ?thesis by (cases xs) (simp_all add: Math_min_def)
qed

lemma Math_max_const:
  assumes "xs \<noteq> []" and "\<forall>x\<in>set xs. x = Num c"
  shows "Math_max xs = Num c"
proof -
  have "fold (\<lambda>x acc. js_max acc x) xs (Num c) = Num c" if "\<forall>x\<in>set xs. x = Num c" for xs
    using that by (induction xs) simp_all
  with assms show ?thesis by (cases xs) (simp_all add: Math_max_def)
qed

lemma nodeValScale_equal_scores:
  assumes "evs \<noteq> []" and "\<forall>n\<in>set evs. score n = c"
  shows "nodeValScale evs (Num c) = NaN"
proof -
  let ?scores = "map (\<lambda>n. Num (score n)) evs"
  have ne: "?scores \<noteq> []" using assms(1) by simp
  have all: "\<forall>x\<in>set ?scores. x = Num c" using assms(2) by auto
  show ?thesis
    by (simp add: nodeValScale_def Math_min_const [OF ne all] Math_max_const [OF ne all]
        js_sub_def)
qed

text \<open>
  Claim C2 does not hold of the code: \<^verbatim>\<open>nodeValScale\<close> has no guard. For three nodes of
  score 5, and for a single node, minimum and maximum coincide and the size of a node is
  \<^verbatim>\<open>60 * (0.4 + 0 / 0)\<close>, which is \<^verbatim>\<open>NaN\<close>, not a finite size.
\<close>

theorem nodeValScale_three_equal_scores:
  "nodeValScale [scored ''event:1'' 5, scored ''event:2'' 5, scored ''event:3'' 5] (Num 5) = NaN
   \<and> nodeValScale [scored ''event:1'' 5] (Num 5) = NaN
   \<and> \<not> isFinite (nodeValScale [scored ''event:1'' 5] (Num 5))"
  by (simp add: nodeValScale_def Math_min_def Math_max_def js_sub_def sample_fields isFinite_def)

subsection \<open>Angle\<close>

lemma bitLength_0 [simp]: "bitLength 0 = 0"
  by (simp add: bitLength.simps)

lemma bitLength_numeral [simp]:
  "bitLength (numeral k) = Suc (bitLength (numeral k div 2))"
  by (subst bitLength.simps) simp

lemma bitLength_1 [simp]: "bitLength (Suc 0) = Suc 0"
  by (subst bitLength.simps) simp

lemma valueOf_powi: "valueOf (Double m e) = real m * 2 powi e"
  by (simp add: valueOf_def power_int_def field_simps)

lemma valueOf_nonneg: "0 \<le> valueOf d"
  by (cases d) (simp add: valueOf_powi)

lemma bitLength_upper: "n < 2 ^ bitLength n"
proof (induction n rule: bitLength.induct)
  case (1 n)
  show ?case
  proof (cases "n = 0")
    case True
    then show ?thesis by simp
  next
    case False
    with 1 have "n div 2 < 2 ^ bitLength (n div 2)" by simp
    then have "n < 2 * 2 ^ bitLength (n div 2)" by linarith
    with False show ?thesis by (subst bitLength.simps) simp
  qed
qed

lemma bitLength_lower: "0 < n \<Longrightarrow> 2 ^ (bitLength n - 1) \<le> n"
proof (induction n rule: bitLength.induct)
  case (1 n)
  show ?case
  proof (cases "n div 2 = 0")
    case True
    with "1.prems" have "n = 1" by linarith
    then show ?thesis by simp
  next
    case False
    then have pos: "0 < n div 2" by simp
    with 1 have ih: "2 ^ (bitLength (n div 2) - 1) \<le> n div 2" by simp
    have b: "0 < bitLength (n div 2)"
      using pos by (subst bitLength.simps) simp
    have "bitLength n = Suc (bitLength (n div 2))"
      using "1.prems" by (subst bitLength.simps) simp
    then have "2 ^ (bitLength n - 1) = 2 * 2 ^ (bitLength (n div 2) - 1)"
      using b by (cases "bitLength (n div 2)") simp_all
    also have "\<dots> \<le> 2 * (n div 2)" using ih by simp
    also have "\<dots> \<le> n" by simp
    finally show ?thesis .
  qed
qed

lemma roundTiesToEven_near:
  "2 * (roundTiesToEven N s * 2 ^ s) \<le> 2 * N + 2 ^ s
   \<and> 2 * N \<le> 2 * (roundTiesToEven N s * 2 ^ s) + 2 ^ s"
proof -
  let ?d = "(2::nat) ^ s"
  have N: "N = N div ?d * ?d + N mod ?d" by (rule div_mult_mod_eq [symmetric])
  have r: "N mod ?d < ?d" by simp
  show ?thesis
  proof (cases "2 * (N mod ?d) < ?d \<or> (2 * (N mod ?d) = ?d \<and> even (N div ?d))")
    case True
    then have e: "roundTiesToEven N s = N div ?d" by (simp add: roundTiesToEven_def Let_def)
    from True have "2 * (N mod ?d) \<le> ?d" by auto
    with N show ?thesis unfolding e by linarith
  next
    case False
    then have e: "roundTiesToEven N s = N div ?d + 1" by (simp add: roundTiesToEven_def Let_def)
    from False have "?d \<le> 2 * (N mod ?d)" by auto
    moreover have "(N div ?d + 1) * ?d = N div ?d * ?d + ?d" by (simp add: algebra_simps)
    ultimately show ?thesis unfolding e using N r by linarith
  qed
qed

lemma roundTiesToEven_tie:
  "2 * (N mod 2 ^ s) = 2 ^ s \<Longrightarrow> even (roundTiesToEven N s)"
  by (simp add: roundTiesToEven_def Let_def)

lemma roundTiesToEven_le:
  assumes "N \<le> K * 2 ^ s"
  shows "roundTiesToEven N s \<le> K"
proof (cases "N mod 2 ^ s = 0")
  case True
  then have "roundTiesToEven N s = N div 2 ^ s" by (simp add: roundTiesToEven_def Let_def)
  also have "\<dots> \<le> K * 2 ^ s div 2 ^ s" using assms by (rule div_le_mono)
  finally show ?thesis by simp
next
  case False
  have "N \<noteq> K * 2 ^ s" using False by auto
  with assms have "N < K * 2 ^ s" by simp
  then have "N div 2 ^ s < K" by (simp add: less_mult_imp_div_less)
  moreover have "roundTiesToEven N s \<le> N div 2 ^ s + 1"
    by (simp add: roundTiesToEven_def Let_def)
  ultimately show ?thesis by linarith
qed

lemma powi_pos: "0 < (2::real) powi e"
  by simp

lemma powi_add2: "(2::real) powi (a + b) = 2 powi a * 2 powi b"
  by (simp add: power_int_add)

lemma powi_nat: "(2::real) powi int n = 2 ^ n"
  by simp

lemma powi_less_imp:
  assumes "(2::real) powi a < 2 powi b"
  shows "a < b"
proof (rule ccontr)
  assume "\<not> a < b"
  then have "b \<le> a" by simp
  then have "(2::real) powi b \<le> 2 powi a" by (intro power_int_increasing) simp_all
  with assms show False by simp
qed

lemma roundDouble_exact:
  "bitLength N \<le> 53 \<Longrightarrow> valueOf (roundDouble N e) = real N * 2 powi e"
  by (simp add: roundDouble_def valueOf_powi)

lemma roundDouble_rounded:
  "\<not> bitLength N \<le> 53 \<Longrightarrow>
   valueOf (roundDouble N e)
     = real (roundTiesToEven N (bitLength N - 53) * 2 ^ (bitLength N - 53)) * 2 powi e"
proof -
  assume a: "\<not> bitLength N \<le> 53"
  let ?s = "bitLength N - 53"
  have "valueOf (roundDouble N e) = real (roundTiesToEven N ?s) * 2 powi (e + int ?s)"
    using a by (simp only: roundDouble_def Let_def if_False valueOf_powi)
  also have "\<dots> = real (roundTiesToEven N ?s) * (2 powi e * 2 ^ ?s)"
    by (simp only: powi_add2 power_int_of_nat)
  also have "\<dots> = real (roundTiesToEven N ?s * 2 ^ ?s) * 2 powi e"
    by simp
  finally show ?thesis .
qed

lemma roundDouble_le:
  assumes le: "real N * 2 powi e \<le> real C * 2 powi g" and C: "bitLength C \<le> 53"
  shows "valueOf (roundDouble N e) \<le> real C * 2 powi g"
proof (cases "bitLength N \<le> 53")
  case True
  with le show ?thesis by (simp add: roundDouble_exact)
next
  case False
  define L where "L = bitLength N"
  define s where "s = L - 53"
  from False have L53: "53 < L" by (simp add: L_def)
  then have N0: "0 < N" unfolding L_def by (cases "N = 0") simp_all
  have Ls: "L = s + 53" using L53 by (simp add: s_def)
  have lowN: "(2::nat) ^ (L - 1) \<le> N" unfolding L_def using N0 by (rule bitLength_lower)
  have "C < 2 ^ bitLength C" by (rule bitLength_upper)
  also have "\<dots> \<le> 2 ^ 53" using C by (intro power_increasing) simp_all
  finally have "real C < real (2 ^ 53)" by (simp only: of_nat_less_iff)
  then have C53: "real C < 2 ^ 53" by simp
  have "2 powi (int (L - 1) + e) = real (2 ^ (L - 1)) * 2 powi e"
    by (simp add: powi_add2)
  also have "\<dots> \<le> real N * 2 powi e"
    using lowN by (intro mult_right_mono) (simp_all add: of_nat_le_iff [symmetric] del: of_nat_le_iff)
  also note le
  also have "real C * 2 powi g < 2 ^ 53 * 2 powi g"
    using C53 by (intro mult_strict_right_mono) simp_all
  also have "\<dots> = 2 powi (53 + g)" by (simp add: powi_add2)
  finally have "int (L - 1) + e < 53 + g" by (rule powi_less_imp)
  then have t0: "0 \<le> g - e - int s" using Ls by simp
  define t where "t = nat (g - e - int s)"
  have g: "g = int t + int s + e" using t0 by (simp add: t_def)
  have cg: "real C * 2 powi g = real (C * 2 ^ t * 2 ^ s) * 2 powi e"
    unfolding g by (simp add: powi_add2)
  from le have "real N * 2 powi e \<le> real (C * 2 ^ t * 2 ^ s) * 2 powi e" unfolding cg .
  then have "real N \<le> real (C * 2 ^ t * 2 ^ s)" by simp
  then have "N \<le> C * 2 ^ t * 2 ^ s" by (simp only: of_nat_le_iff)
  then have "roundTiesToEven N s \<le> C * 2 ^ t" by (rule roundTiesToEven_le)
  then have "roundTiesToEven N s * 2 ^ s \<le> C * 2 ^ t * 2 ^ s" by simp
  then have "real (roundTiesToEven N s * 2 ^ s) \<le> real (C * 2 ^ t * 2 ^ s)"
    by (simp only: of_nat_le_iff)
  then have "real (roundTiesToEven N s * 2 ^ s) * 2 powi e \<le> real (C * 2 ^ t * 2 ^ s) * 2 powi e"
    by (intro mult_right_mono) simp_all
  then show ?thesis
    using False unfolding cg by (simp add: roundDouble_rounded s_def L_def)
qed

lemma roundDouble_error:
  "\<bar>valueOf (roundDouble N e) - real N * 2 powi e\<bar> \<le> real N * 2 powi e / 2 ^ 53"
proof (cases "bitLength N \<le> 53")
  case True
  then show ?thesis by (simp add: roundDouble_exact)
next
  case False
  define s where "s = bitLength N - 53"
  define R where "R = roundTiesToEven N s * 2 ^ s"
  from False have N0: "0 < N" by (cases "N = 0") simp_all
  have "(2::nat) ^ (bitLength N - 1) \<le> N" using N0 by (rule bitLength_lower)
  moreover have "bitLength N - 1 = s + 52" using False by (simp add: s_def)
  ultimately have "(2::nat) ^ s * 2 ^ 52 \<le> N" by (simp add: power_add)
  then have "real ((2::nat) ^ s * 2 ^ 52) \<le> real N" by (simp only: of_nat_le_iff)
  then have d: "(2::real) ^ s * 2 ^ 52 \<le> real N" by simp
  from roundTiesToEven_near [of N s]
  have "2 * R \<le> 2 * N + 2 ^ s" "2 * N \<le> 2 * R + 2 ^ s" by (simp_all add: R_def)
  then have "real (2 * R) \<le> real (2 * N + 2 ^ s)" "real (2 * N) \<le> real (2 * R + 2 ^ s)"
    by (simp_all only: of_nat_le_iff)
  then have "2 * real R \<le> 2 * real N + 2 ^ s" "2 * real N \<le> 2 * real R + 2 ^ s"
    by simp_all
  then have "\<bar>real R - real N\<bar> \<le> 2 ^ s / 2" by linarith
  also have "\<dots> \<le> real N / 2 ^ 53" using d by (simp add: field_simps)
  finally have "\<bar>real R - real N\<bar> * 2 powi e \<le> real N / 2 ^ 53 * 2 powi e"
    by (intro mult_right_mono) simp_all
  moreover have "\<bar>real R * 2 powi e - real N * 2 powi e\<bar> = \<bar>real R - real N\<bar> * 2 powi e"
    by (simp add: abs_mult flip: left_diff_distrib)
  ultimately show ?thesis
    using False by (simp add: roundDouble_rounded s_def R_def)
qed

lemma dmul_exact_product:
  "real (significand a * significand b) * 2 powi (exponent a + exponent b)
     = valueOf a * valueOf b"
  by (cases a, cases b) (simp add: valueOf_powi powi_add2)

lemma dmul_error:
  "\<bar>valueOf (dmul a b) - valueOf a * valueOf b\<bar> \<le> valueOf a * valueOf b / 2 ^ 53"
  unfolding dmul_def
  using roundDouble_error [of "significand a * significand b" "exponent a + exponent b"]
  by (simp only: dmul_exact_product)

lemma dmul_le:
  assumes "valueOf a * valueOf b \<le> real C * 2 powi g" and "bitLength C \<le> 53"
  shows "valueOf (dmul a b) \<le> real C * 2 powi g"
  unfolding dmul_def
  using assms by (intro roundDouble_le) (simp_all only: dmul_exact_product)

lemma frac_of_nat_div: "frac (real m / 2 ^ k) = real (m mod 2 ^ k) / 2 ^ k"
proof -
  have fl: "\<lfloor>real m / real ((2::nat) ^ k)\<rfloor> = int (m div 2 ^ k)"
    by (rule floor_divide_of_nat_eq)
  have "real m = real (m div 2 ^ k * 2 ^ k + m mod 2 ^ k)"
    by (simp only: div_mult_mod_eq)
  then have m: "real m = real (m div 2 ^ k) * 2 ^ k + real (m mod 2 ^ k)" by simp
  have "frac (real m / 2 ^ k) = real m / 2 ^ k - real (m div 2 ^ k)"
    using fl by (simp add: frac_def)
  also have "\<dots> = real (m mod 2 ^ k) / 2 ^ k"
    by (subst m) (simp add: field_simps)
  finally show ?thesis .
qed

lemma valueOf_dfrac: "valueOf (dfrac a) = frac (valueOf a)"
proof (cases "0 \<le> exponent a")
  case True
  then have "valueOf a = of_int (int (significand a * 2 ^ nat (exponent a)))"
    by (simp add: valueOf_def)
  then have "frac (valueOf a) = 0" by (simp only: frac_of_int)
  with True show ?thesis by (simp add: dfrac_def valueOf_def)
next
  case False
  then show ?thesis by (simp add: dfrac_def valueOf_def frac_of_nat_div)
qed

lemma valueOf_dfrac_less: "valueOf (dfrac a) < 1"
  unfolding valueOf_dfrac by (rule frac_lt_1)

lemma arctan_series_bounds:
  fixes x :: real
  assumes "0 < x" and "x \<le> 1"
  shows "(\<Sum>i<2 * n. (- 1) ^ i * (1 / real (i * 2 + 1) * x ^ (i * 2 + 1))) \<le> arctan x"
    and "arctan x \<le> (\<Sum>i<2 * n + 1. (- 1) ^ i * (1 / real (i * 2 + 1) * x ^ (i * 2 + 1)))"
proof -
  let ?a = "\<lambda>n. 1 / real (n * 2 + 1) * x ^ (n * 2 + 1)"
  have ax: "\<bar>x\<bar> \<le> 1" using assms by simp
  have a0: "0 < ?a 0" using assms by simp
  from summable_Leibniz(2) [OF zeroseq_arctan_series [OF ax] monoseq_arctan_series [OF ax]] a0
  have "(\<Sum>i. (- 1) ^ i * ?a i)
      \<in> {(\<Sum>i<2 * n. (- 1) ^ i * ?a i) .. (\<Sum>i<2 * n + 1. (- 1) ^ i * ?a i)}"
    by blast
  then show "(\<Sum>i<2 * n. (- 1) ^ i * ?a i) \<le> arctan x"
    and "arctan x \<le> (\<Sum>i<2 * n + 1. (- 1) ^ i * ?a i)"
    unfolding arctan_series [OF ax] by simp_all
qed

lemma pi_machin: "pi = 16 * arctan (1 / 5) - 4 * arctan (1 / 239)"
  using machin by simp

lemma pi_lower: "884279719003555 / 2 ^ 48 < pi"
proof -
  let ?t = "\<lambda>x i. (- 1) ^ i * (1 / real (i * 2 + 1) * (x::real) ^ (i * 2 + 1))"
  have l: "(\<Sum>i<2 * 6. ?t (1 / 5) i) \<le> arctan (1 / 5)"
    by (rule arctan_series_bounds(1)) simp_all
  have u: "arctan (1 / 239) \<le> (\<Sum>i<2 * 2 + 1. ?t (1 / 239) i)"
    by (rule arctan_series_bounds(2)) simp_all
  have "884279719003555 / 2 ^ 48
      < 16 * (\<Sum>i<2 * 6. ?t (1 / 5) i) - 4 * (\<Sum>i<2 * 2 + 1. ?t (1 / 239) i)"
    by (simp add: sum.lessThan_Suc eval_nat_numeral)
  also have "\<dots> \<le> 16 * arctan (1 / 5) - 4 * arctan (1 / 239)"
    using l u by linarith
  finally show ?thesis by (simp only: pi_machin)
qed

lemma pi_upper: "pi < 884279719003555 / 2 ^ 48 + 1 / 2 ^ 52"
proof -
  let ?t = "\<lambda>x i. (- 1) ^ i * (1 / real (i * 2 + 1) * (x::real) ^ (i * 2 + 1))"
  have u: "arctan (1 / 5) \<le> (\<Sum>i<2 * 6 + 1. ?t (1 / 5) i)"
    by (rule arctan_series_bounds(2)) simp_all
  have l: "(\<Sum>i<2 * 2. ?t (1 / 239) i) \<le> arctan (1 / 239)"
    by (rule arctan_series_bounds(1)) simp_all
  have "pi = 16 * arctan (1 / 5) - 4 * arctan (1 / 239)" by (rule pi_machin)
  also have "\<dots> \<le> 16 * (\<Sum>i<2 * 6 + 1. ?t (1 / 5) i) - 4 * (\<Sum>i<2 * 2. ?t (1 / 239) i)"
    using l u by linarith
  also have "\<dots> < 884279719003555 / 2 ^ 48 + 1 / 2 ^ 52"
    by (simp add: sum.lessThan_Suc eval_nat_numeral)
  finally show ?thesis .
qed

lemma valueOf_Math_PI: "valueOf Math_PI = 884279719003555 / 2 ^ 48"
  by (simp add: Math_PI_def valueOf_def)

lemma valueOf_PHI: "valueOf PHI = 5566755282873603 / 2 ^ 53"
  by (simp add: PHI_def valueOf_def)

lemma PHI_nearest: "\<bar>valueOf PHI - 61803398875 / 100000000000\<bar> \<le> 1 / 2 ^ 54"
  by (simp add: valueOf_PHI abs_le_iff)

lemma ToInt32_range: "- (2 ^ 31) \<le> ToInt32 x \<and> ToInt32 x < 2 ^ 31"
proof -
  have "0 \<le> x mod 2 ^ 32" "x mod 2 ^ 32 < 2 ^ 32" by simp_all
  then show ?thesis by (auto simp: ToInt32_def Let_def)
qed

lemma fold_hash_range:
  "- (2 ^ 31) \<le> h \<and> h < 2 ^ 31 \<Longrightarrow>
   - (2 ^ 31) \<le> fold (\<lambda>c h. ToInt32 (ToInt32 (h * 2 ^ 5) - h + uint c)) s h
   \<and> fold (\<lambda>c h. ToInt32 (ToInt32 (h * 2 ^ 5) - h + uint c)) s h < 2 ^ 31"
proof (induction s arbitrary: h)
  case Nil
  then show ?case by simp
next
  case (Cons c s)
  show ?case
    unfolding fold_Cons o_apply
    by (rule Cons.IH) (rule ToInt32_range)
qed

lemma hashStr_range: "- (2 ^ 31) \<le> hashStr s \<and> hashStr s < 2 ^ 31"
  unfolding hashStr_def by (rule fold_hash_range) simp

lemma valueOf_ofNat: "valueOf (ofNat k) = real k"
  by (simp add: ofNat_def valueOf_def)

lemma Math_PI_powi: "valueOf Math_PI = real 884279719003555 * 2 powi (- 48)"
  by (simp only: Math_PI_def valueOf_powi)

lemma twice_Math_PI: "2 * (real 884279719003555 * 2 powi (- 48)) = real 884279719003555 * 2 powi (- 47)"
proof -
  have "(2::real) powi (- 47) = 2 powi 1 * 2 powi (- 48)"
    by (simp only: powi_add2 [symmetric]) simp
  then show ?thesis by simp
qed

lemma bitLength_Math_PI: "bitLength 884279719003555 \<le> 53"
  by simp

lemma angle_double_range:
  "0 \<le> valueOf (dmul (dmul (dfrac p) Math_PI) (ofNat 2))
   \<and> valueOf (dmul (dmul (dfrac p) Math_PI) (ofNat 2)) < 2 * pi"
proof -
  let ?C = "884279719003555 :: nat"
  let ?X = "dmul (dfrac p) Math_PI"
  have f0: "0 \<le> valueOf (dfrac p)" by (rule valueOf_nonneg)
  have f1: "valueOf (dfrac p) \<le> 1" using valueOf_dfrac_less [of p] by simp
  have p0: "0 \<le> valueOf Math_PI" by (rule valueOf_nonneg)
  have "valueOf (dfrac p) * valueOf Math_PI \<le> 1 * valueOf Math_PI"
    using f1 p0 by (rule mult_right_mono)
  then have "valueOf (dfrac p) * valueOf Math_PI \<le> real ?C * 2 powi (- 48)"
    by (simp only: Math_PI_powi mult_1)
  then have x: "valueOf ?X \<le> real ?C * 2 powi (- 48)"
    using bitLength_Math_PI by (rule dmul_le)
  have "valueOf ?X * valueOf (ofNat 2) = 2 * valueOf ?X" by (simp add: valueOf_ofNat)
  also have "\<dots> \<le> 2 * (real ?C * 2 powi (- 48))" using x by simp
  finally have "valueOf ?X * valueOf (ofNat 2) \<le> real ?C * 2 powi (- 47)"
    by (simp only: twice_Math_PI)
  then have "valueOf (dmul ?X (ofNat 2)) \<le> real ?C * 2 powi (- 47)"
    using bitLength_Math_PI by (rule dmul_le)
  also have "\<dots> = 2 * valueOf Math_PI" by (simp only: Math_PI_powi twice_Math_PI)
  also have "\<dots> < 2 * pi" using pi_lower by (simp add: valueOf_Math_PI)
  finally have "valueOf (dmul ?X (ofNat 2)) < 2 * pi" .
  then show ?thesis using valueOf_nonneg [of "dmul ?X (ofNat 2)"] by simp
qed

text \<open>
  Claim C5. For a node with the string id \<open>s\<close> and \<open>h = \<bar>hashStr s\<bar>\<close> (a 32-bit hash),
  \<^verbatim>\<open>angleForEvent\<close> returns \<^verbatim>\<open>((h * phi) % 1) * Math.PI * 2\<close> as the doubles compute it: that
  is \<open>frac (h * 0.61803398875) * 2 * pi\<close> where \<open>h\<close> and 2 are exact, \<open>phi\<close> and
  \<^verbatim>\<open>Math.PI\<close> are the doubles nearest to 0.61803398875 and to \<open>pi\<close>, \<^verbatim>\<open>% 1\<close> is exactly the
  fractional part, and each product is the exact product rounded, within the relative error
  \<open>2^-53\<close> (the dropped digits are rounded to the nearest, a tie to the even significand).
  The result lies in \<open>[0, 2 * pi)\<close>. It is a function of the id alone: two
  nodes with the same id get the same value, bit for bit, whatever their other fields.
\<close>

theorem angleForEvent_golden:
  assumes idn: "node_id n = IdString s"
  shows "angleForEvent n
      = Inr (valueOf (dmul (dmul (dfrac (dmul (ofNat (nat \<bar>hashStr s\<bar>)) PHI)) Math_PI) (ofNat 2)))
    \<and> valueOf (ofNat (nat \<bar>hashStr s\<bar>)) = real_of_int \<bar>hashStr s\<bar>
    \<and> valueOf (ofNat 2) = 2
    \<and> \<bar>valueOf PHI - 61803398875 / 100000000000\<bar> \<le> 1 / 2 ^ 54
    \<and> \<bar>valueOf Math_PI - pi\<bar> < 1 / 2 ^ 52
    \<and> valueOf (dfrac x) = frac (valueOf x)
    \<and> \<bar>valueOf (dmul a b) - valueOf a * valueOf b\<bar> \<le> valueOf a * valueOf b / 2 ^ 53
    \<and> 2 * (roundTiesToEven N k * 2 ^ k) \<le> 2 * N + 2 ^ k
    \<and> 2 * N \<le> 2 * (roundTiesToEven N k * 2 ^ k) + 2 ^ k
    \<and> (2 * (N mod 2 ^ k) = 2 ^ k \<longrightarrow> even (roundTiesToEven N k))
    \<and> (\<exists>r. angleForEvent n = Inr r \<and> 0 \<le> r \<and> r < 2 * pi)
    \<and> (node_id m = node_id n \<longrightarrow> angleForEvent m = angleForEvent n)
    \<and> - (2 ^ 31) \<le> hashStr s \<and> hashStr s < 2 ^ 31"
proof -
  note eq = angleForEvent_IdString [OF idn]
  have h: "valueOf (ofNat (nat \<bar>hashStr s\<bar>)) = real_of_int \<bar>hashStr s\<bar>"
    by (simp add: valueOf_ofNat)
  have two: "valueOf (ofNat 2) = 2" by (simp add: valueOf_ofNat)
  have mpi: "\<bar>valueOf Math_PI - pi\<bar> < 1 / 2 ^ 52"
    using pi_lower pi_upper unfolding valueOf_Math_PI by linarith
  have rng: "\<exists>r. angleForEvent n = Inr r \<and> 0 \<le> r \<and> r < 2 * pi"
    unfolding eq using angle_double_range by blast
  have same: "angleForEvent m = angleForEvent n" if "node_id m = node_id n"
    using that by (simp add: angleForEvent_def)
  have tie: "2 * (N mod 2 ^ k) = 2 ^ k \<longrightarrow> even (roundTiesToEven N k)"
    by (simp add: roundTiesToEven_tie)
  from eq h two PHI_nearest mpi valueOf_dfrac [of x] dmul_error [of a b]
    roundTiesToEven_near [of N k] tie rng same hashStr_range [of s]
  show ?thesis by blast
qed

lemma hashStr_event1: "hashStr (str ''event:1'') = - 1376502959"
  by (simp add: hashStr_def str_def ToInt32_def)

lemma hashStr_event5926096: "hashStr (str ''event:5926096'') = 1798029701"
  by (simp add: hashStr_def str_def ToInt32_def)

lemma angle_double_event1:
  "dmul (dmul (dfrac (dmul (ofNat 1376502959) PHI)) Math_PI) (ofNat 2)
     = Double 7836776538342945 (- 52)"
  by (simp add: dmul_def ofNat_def PHI_def Math_PI_def dfrac_def roundDouble_def
      roundTiesToEven_def Let_def)

lemma angle_double_event5926096:
  "dfrac (dmul (ofNat 1798029701) PHI) = Double 0 (- 22)"
  by (simp add: dmul_def ofNat_def PHI_def dfrac_def roundDouble_def roundTiesToEven_def Let_def)

lemma dmul_zero: "valueOf (dmul (dmul (Double 0 e) b) c) = 0"
  by (simp add: dmul_def roundDouble_def valueOf_def)

theorem angleForEvent_golden_witness:
  "angleForEvent (sampleEvent ''event:1'' 1 ''2025-01-09T00:00:00Z'')
     = Inr (7836776538342945 / 2 ^ 52)
   \<and> angleForEvent (sampleEvent ''event:5926096'' 1 ''2025-01-09T00:00:00Z'') = Inr 0
   \<and> angleForEvent (sampleEvent ''event:1'' 7 ''2025-01-17T00:00:00Z'')
     = angleForEvent (sampleEvent ''event:1'' 1 ''2025-01-09T00:00:00Z'')
   \<and> roundTiesToEven 10 2 = 2 \<and> roundTiesToEven 14 2 = 4 \<and> roundTiesToEven 13 2 = 3"
proof -
  have id1: "node_id (sampleEvent ''event:1'' sc st) = IdString (str ''event:1'')" for sc st
    by (simp add: sampleEvent_def sampleNode_def)
  have id2: "node_id (sampleEvent ''event:5926096'' 1 ''2025-01-09T00:00:00Z'')
      = IdString (str ''event:5926096'')"
    by (simp add: sampleEvent_def sampleNode_def)
  from angleForEvent_golden [OF id1 [of 1 "''2025-01-09T00:00:00Z''"],
      where m = "sampleEvent ''event:1'' 7 ''2025-01-17T00:00:00Z''"]
  have a: "angleForEvent (sampleEvent ''event:1'' 1 ''2025-01-09T00:00:00Z'')
      = Inr (7836776538342945 / 2 ^ 52)"
    and c: "angleForEvent (sampleEvent ''event:1'' 7 ''2025-01-17T00:00:00Z'')
      = angleForEvent (sampleEvent ''event:1'' 1 ''2025-01-09T00:00:00Z'')"
    by (simp_all add: hashStr_event1 angle_double_event1 valueOf_def id1)
  from angleForEvent_golden [OF id2]
  have b: "angleForEvent (sampleEvent ''event:5926096'' 1 ''2025-01-09T00:00:00Z'') = Inr 0"
    by (simp add: hashStr_event5926096 angle_double_event5926096 dmul_zero)
  from angleForEvent_golden [OF id2, where N = 10 and k = 2]
    angleForEvent_golden [OF id2, where N = 14 and k = 2]
  have d: "roundTiesToEven 10 2 = 2 \<and> roundTiesToEven 14 2 = 4 \<and> roundTiesToEven 13 2 = 3"
    by (simp add: roundTiesToEven_def)
  from a b c d show ?thesis by simp
qed

subsection \<open>Topic colour\<close>

lemma js_rem_int_abs: "0 < b \<Longrightarrow> js_rem_int \<bar>a\<bar> b = \<bar>a\<bar> mod b"
  by (cases "a = 0") (simp_all add: js_rem_int_def)

lemma palette_facts:
  "length TOPIC_COLORS = 8"
  "distinct TOPIC_COLORS"
  "OTHER_TOPIC_COLOR \<notin> set TOPIC_COLORS"
  by (simp_all add: TOPIC_COLORS_def OTHER_TOPIC_COLOR_def str_def)

lemma trim_Nil: "trim [] = []"
  by (simp add: trim_def)

lemma topicColor_fallback_empty: "trim t = [] \<Longrightarrow> topicColor (Some t) = OTHER_TOPIC_COLOR"
  by (simp add: topicColor_def Let_def)

lemma topicColor_fallback_other:
  "toLowerCase (trim t) = str ''other'' \<Longrightarrow> topicColor (Some t) = OTHER_TOPIC_COLOR"
  by (simp add: topicColor_def Let_def)

lemma topicColor_hashed:
  assumes "trim t \<noteq> []" and "toLowerCase (trim t) \<noteq> str ''other''"
  shows "topicColor (Some t) = TOPIC_COLORS ! nat (\<bar>hashStr (trim t)\<bar> mod 8)"
proof -
  from assms(1) have "t \<noteq> []" by (auto simp: trim_Nil)
  with assms show ?thesis
    by (simp add: topicColor_def Let_def palette_facts(1) js_rem_int_abs)
qed

text \<open>
  Claim C6. A missing topic, a topic that is empty after trimming, and a topic that is
  \<^verbatim>\<open>"other"\<close> in any letter case after trimming get the reserved colour
  \<open>OTHER_TOPIC_COLOR\<close>. Every other topic gets the entry of the palette \<open>TOPIC_COLORS\<close> at
  the index \<open>\<bar>hashStr (trim t)\<bar> mod 8\<close>: one of the eight palette colours, never the
  reserved one. The colour depends on the trimmed string only, so the same topic gets the
  same colour in every fetch. The palette has eight distinct colours and the reserved colour
  is none of them.
\<close>

theorem topicColor_palette_or_fallback:
  "topicColor None = OTHER_TOPIC_COLOR
   \<and> (trim t = [] \<longrightarrow> topicColor (Some t) = OTHER_TOPIC_COLOR)
   \<and> (toLowerCase (trim t) = str ''other'' \<longrightarrow> topicColor (Some t) = OTHER_TOPIC_COLOR)
   \<and> (trim t \<noteq> [] \<and> toLowerCase (trim t) \<noteq> str ''other'' \<longrightarrow>
        topicColor (Some t) = TOPIC_COLORS ! nat (\<bar>hashStr (trim t)\<bar> mod 8)
        \<and> topicColor (Some t) \<in> set TOPIC_COLORS
        \<and> topicColor (Some t) \<noteq> OTHER_TOPIC_COLOR)
   \<and> (trim u = trim t \<longrightarrow> topicColor (Some u) = topicColor (Some t))
   \<and> length TOPIC_COLORS = 8 \<and> distinct TOPIC_COLORS
   \<and> OTHER_TOPIC_COLOR \<notin> set TOPIC_COLORS"
proof -
  have none: "topicColor None = OTHER_TOPIC_COLOR" by (simp add: topicColor_def)
  have hashed: "topicColor (Some t) = TOPIC_COLORS ! nat (\<bar>hashStr (trim t)\<bar> mod 8)
        \<and> topicColor (Some t) \<in> set TOPIC_COLORS
        \<and> topicColor (Some t) \<noteq> OTHER_TOPIC_COLOR"
    if h: "trim t \<noteq> [] \<and> toLowerCase (trim t) \<noteq> str ''other''"
  proof -
    from h have eq: "topicColor (Some t) = TOPIC_COLORS ! nat (\<bar>hashStr (trim t)\<bar> mod 8)"
      by (simp add: topicColor_hashed)
    have "nat (\<bar>hashStr (trim t)\<bar> mod 8) < length TOPIC_COLORS"
      by (simp add: palette_facts(1) nat_less_iff)
    then have mem: "TOPIC_COLORS ! nat (\<bar>hashStr (trim t)\<bar> mod 8) \<in> set TOPIC_COLORS"
      by (rule nth_mem)
    with palette_facts(3) have "TOPIC_COLORS ! nat (\<bar>hashStr (trim t)\<bar> mod 8) \<noteq> OTHER_TOPIC_COLOR"
      by metis
    with eq mem show ?thesis by simp
  qed
  have same: "topicColor (Some u) = topicColor (Some t)" if e: "trim u = trim t"
  proof (cases "trim t = [] \<or> toLowerCase (trim t) = str ''other''")
    case True
    with e show ?thesis
      by (auto simp: topicColor_fallback_empty topicColor_fallback_other)
  next
    case False
    with e show ?thesis by (simp add: topicColor_hashed)
  qed
  from none topicColor_fallback_empty [of t] topicColor_fallback_other [of t] hashed same
    palette_facts
  show ?thesis by blast
qed

lemma hashStr_Music: "hashStr (str ''Music'') = 74710533"
  by (simp add: hashStr_def str_def ToInt32_def)

lemma trim_samples:
  "trim (str ''Music'') = str ''Music''"
  "trim (str '' Music  '') = str ''Music''"
  "trim (str '' oThEr '') = str ''oThEr''"
  "trim (str ''   '') = []"
  by (simp_all add: trim_def str_def isWhiteSpace_def)

lemma lower_samples:
  "toLowerCase (str ''Music'') \<noteq> str ''other''"
  "toLowerCase (str ''oThEr'') = str ''other''"
  by (simp_all add: toLowerCase_def str_def)

theorem topicColor_palette_or_fallback_witness:
  "topicColor (Some (str ''Music'')) = str ''#e6ab02''
   \<and> topicColor (Some (str '' Music  '')) = topicColor (Some (str ''Music''))
   \<and> topicColor (Some (str '' oThEr '')) = OTHER_TOPIC_COLOR
   \<and> topicColor (Some (str ''   '')) = OTHER_TOPIC_COLOR
   \<and> topicColor (Some []) = OTHER_TOPIC_COLOR"
proof -
  have m: "str ''Music'' \<noteq> []" by (simp add: str_def)
  have c: "TOPIC_COLORS ! 5 = str ''#e6ab02''"
    by (simp add: TOPIC_COLORS_def)
  note M = topicColor_palette_or_fallback [of "str ''Music''" "str '' Music  ''"]
  from M have "trim (str ''Music'') \<noteq> [] \<and> toLowerCase (trim (str ''Music'')) \<noteq> str ''other''
      \<longrightarrow> topicColor (Some (str ''Music''))
            = TOPIC_COLORS ! nat (\<bar>hashStr (trim (str ''Music''))\<bar> mod 8)"
    by blast
  then have a: "topicColor (Some (str ''Music'')) = str ''#e6ab02''"
    by (simp add: trim_samples lower_samples hashStr_Music m c)
  from M have "trim (str '' Music  '') = trim (str ''Music'')
      \<longrightarrow> topicColor (Some (str '' Music  '')) = topicColor (Some (str ''Music''))"
    by blast
  then have b: "topicColor (Some (str '' Music  '')) = topicColor (Some (str ''Music''))"
    by (simp add: trim_samples)
  from topicColor_palette_or_fallback [of "str '' oThEr ''"]
  have "toLowerCase (trim (str '' oThEr '')) = str ''other''
      \<longrightarrow> topicColor (Some (str '' oThEr '')) = OTHER_TOPIC_COLOR"
    by blast
  then have o: "topicColor (Some (str '' oThEr '')) = OTHER_TOPIC_COLOR"
    by (simp add: trim_samples lower_samples)
  from topicColor_palette_or_fallback [of "str ''   ''"]
  have "trim (str ''   '') = [] \<longrightarrow> topicColor (Some (str ''   '')) = OTHER_TOPIC_COLOR"
    by blast
  then have w: "topicColor (Some (str ''   '')) = OTHER_TOPIC_COLOR"
    by (simp add: trim_samples)
  from topicColor_palette_or_fallback [of "[]"]
  have "trim [] = [] \<longrightarrow> topicColor (Some []) = OTHER_TOPIC_COLOR"
    by blast
  then have e: "topicColor (Some []) = OTHER_TOPIC_COLOR"
    by (simp add: trim_Nil)
  from a b o w e show ?thesis by simp
qed

subsection \<open>Click navigation\<close>

lemma andThen_Inr: "andThen p (Inr s) = Inr (p @ s)"
  by (simp add: andThen_def)

lemma encodeURIComponent_no_surrogates:
  "\<forall>c\<in>set i. \<not> isHighSurrogate c \<and> \<not> isLowSurrogate c \<Longrightarrow> \<exists>p. encodeURIComponent i = Inr p"
proof (induction i rule: encodeURIComponent.induct)
  case 1
  then show ?case by simp
next
  case (2 c)
  then show ?case by simp
next
  case (3 c d ds)
  from "3.prems" have c: "\<not> isHighSurrogate c" "\<not> isLowSurrogate c"
    and rest: "\<forall>x\<in>set (d # ds). \<not> isHighSurrogate x \<and> \<not> isLowSurrogate x"
    by simp_all
  show ?case
  proof (cases "uriUnreserved c")
    case True
    from "3.IH"(1) [OF True rest] obtain p where "encodeURIComponent (d # ds) = Inr p" ..
    with True show ?thesis by (simp add: andThen_Inr)
  next
    case False
    from "3.IH"(3) [OF False c(2) c(1) rest] obtain p
      where "encodeURIComponent (d # ds) = Inr p" ..
    with False c show ?thesis by (simp add: andThen_Inr)
  qed
qed

lemma truthy_Some: "truthy (Some i) = (i \<noteq> [])"
  by (simp add: truthy_def)

lemma truthy_cases: "truthy v \<Longrightarrow> \<exists>i. v = Some i \<and> i \<noteq> []"
  by (cases v) (simp_all add: truthy_def)

text \<open>
  Claim C9, as amended. A click navigates only if the node has type \<^verbatim>\<open>event\<close> and a
  non-empty \<^verbatim>\<open>event_id\<close>. For such a node, with a callback the callback is called with the
  id; without a callback the location becomes \<^verbatim>\<open>/events/eventpage/\<close> followed by the
  percent-encoded id, provided \<^verbatim>\<open>encodeURIComponent\<close> accepts the id, which it does for
  every id without surrogate code units. A node that is not an event, or has no
  \<^verbatim>\<open>event_id\<close> or an empty one, does nothing: no error, no navigation.
\<close>

theorem handleNodeClick_navigates:
  "(node_type n = Some (str ''event'') \<and> event_id n = Some i \<and> i \<noteq> [] \<and> cb \<longrightarrow>
      handleNodeClick cb n = Inr (OnEventClick i))
   \<and> (node_type n = Some (str ''event'') \<and> event_id n = Some i \<and> i \<noteq> [] \<and> \<not> cb
        \<and> encodeURIComponent i = Inr p \<longrightarrow>
      handleNodeClick cb n = Inr (LocationHref (str ''/events/eventpage/'' @ p)))
   \<and> (node_type n = Some (str ''event'') \<and> event_id n = Some i \<and> i \<noteq> [] \<and> \<not> cb
        \<and> (\<forall>c\<in>set i. \<not> isHighSurrogate c \<and> \<not> isLowSurrogate c) \<longrightarrow>
      (\<exists>q. handleNodeClick cb n = Inr (LocationHref (str ''/events/eventpage/'' @ q))))
   \<and> (node_type n \<noteq> Some (str ''event'') \<or> event_id n = None \<or> event_id n = Some [] \<longrightarrow>
      handleNodeClick cb n = Inr NoNavigation)
   \<and> (handleNodeClick cb n = Inr (OnEventClick j) \<or> handleNodeClick cb n = Inr (LocationHref j)
        \<longrightarrow> node_type n = Some (str ''event'') \<and> (\<exists>k. event_id n = Some k \<and> k \<noteq> []))"
proof (intro conjI impI)
  assume "node_type n = Some (str ''event'') \<and> event_id n = Some i \<and> i \<noteq> [] \<and> cb"
  then show "handleNodeClick cb n = Inr (OnEventClick i)"
    by (simp add: handleNodeClick_def truthy_Some String_of_def)
next
  assume "node_type n = Some (str ''event'') \<and> event_id n = Some i \<and> i \<noteq> [] \<and> \<not> cb
        \<and> encodeURIComponent i = Inr p"
  then show "handleNodeClick cb n = Inr (LocationHref (str ''/events/eventpage/'' @ p))"
    by (simp add: handleNodeClick_def truthy_Some String_of_def)
next
  assume a: "node_type n = Some (str ''event'') \<and> event_id n = Some i \<and> i \<noteq> [] \<and> \<not> cb
        \<and> (\<forall>c\<in>set i. \<not> isHighSurrogate c \<and> \<not> isLowSurrogate c)"
  then obtain q where "encodeURIComponent i = Inr q"
    using encodeURIComponent_no_surrogates [of i] by blast
  with a have "handleNodeClick cb n = Inr (LocationHref (str ''/events/eventpage/'' @ q))"
    by (simp add: handleNodeClick_def truthy_Some String_of_def)
  then show "\<exists>q. handleNodeClick cb n = Inr (LocationHref (str ''/events/eventpage/'' @ q))" ..
next
  assume "node_type n \<noteq> Some (str ''event'') \<or> event_id n = None \<or> event_id n = Some []"
  then show "handleNodeClick cb n = Inr NoNavigation"
    by (auto simp: handleNodeClick_def truthy_def)
next
  assume nav: "handleNodeClick cb n = Inr (OnEventClick j)
    \<or> handleNodeClick cb n = Inr (LocationHref j)"
  then have g: "node_type n = Some (str ''event'') \<and> truthy (event_id n)"
    by (auto simp: handleNodeClick_def split: if_splits)
  then show "node_type n = Some (str ''event'')" by simp
  from g show "\<exists>k. event_id n = Some k \<and> k \<noteq> []" by (simp add: truthy_cases)
qed

lemma enrich_event_42:
  "node_type (enrich (sampleEvent ''event:42'' 1 ''2025-01-09T00:00:00Z'')) = Some (str ''event'')"
  "event_id (enrich (sampleEvent ''event:42'' 1 ''2025-01-09T00:00:00Z'')) = Some (str ''42'')"
  by (simp_all add: enrich_def sampleEvent_def sampleNode_def String_of_id_def startsWith_def
      str_def Let_def)

lemma enrich_event_slash:
  "node_type (enrich (sampleEvent ''a b/c'' 1 ''2025-01-09T00:00:00Z'')) = Some (str ''event'')"
  "event_id (enrich (sampleEvent ''a b/c'' 1 ''2025-01-09T00:00:00Z'')) = Some (str ''a b/c'')"
  by (simp_all add: enrich_def sampleEvent_def sampleNode_def String_of_id_def startsWith_def
      str_def Let_def)

lemma enrich_person:
  "node_type (enrich (sampleNode (Some ''person:7'') (Some ''person'') 100 None))
     = Some (str ''person'')"
  by (simp add: enrich_def sampleNode_def Let_def str_def)

lemma unenriched_event:
  "event_id (sampleEvent ''event:42'' 1 ''2025-01-09T00:00:00Z'') = None"
  by (simp add: sampleEvent_def sampleNode_def)

lemma encode_42: "encodeURIComponent (str ''42'') = Inr (str ''42'')"
  by (simp add: str_def uriUnreserved_def andThen_def)

lemma encode_slash: "encodeURIComponent (str ''a b/c'') = Inr (str ''a%20b%2Fc'')"
  by (simp add: str_def uriUnreserved_def andThen_def isLowSurrogate_def isHighSurrogate_def
      pctEncode_def utf8_def pctByte_def hexDigit_def)

theorem handleNodeClick_navigates_witness:
  "handleNodeClick True (enrich (sampleEvent ''event:42'' 1 ''2025-01-09T00:00:00Z''))
     = Inr (OnEventClick (str ''42''))
   \<and> handleNodeClick False (enrich (sampleEvent ''event:42'' 1 ''2025-01-09T00:00:00Z''))
     = Inr (LocationHref (str ''/events/eventpage/42''))
   \<and> handleNodeClick False (enrich (sampleEvent ''a b/c'' 1 ''2025-01-09T00:00:00Z''))
     = Inr (LocationHref (str ''/events/eventpage/a%20b%2Fc''))
   \<and> handleNodeClick True (sampleEvent ''event:42'' 1 ''2025-01-09T00:00:00Z'')
     = Inr NoNavigation
   \<and> handleNodeClick True (enrich (sampleNode (Some ''person:7'') (Some ''person'') 100 None))
     = Inr NoNavigation"
proof -
  have ne: "str ''42'' \<noteq> []" "str ''a b/c'' \<noteq> []" "str ''person'' \<noteq> str ''event''"
    by (simp_all add: str_def)
  have cat: "str ''/events/eventpage/'' @ str ''42'' = str ''/events/eventpage/42''"
    "str ''/events/eventpage/'' @ str ''a%20b%2Fc'' = str ''/events/eventpage/a%20b%2Fc''"
    by (simp_all add: str_def)
  from handleNodeClick_navigates
    [of "enrich (sampleEvent ''event:42'' 1 ''2025-01-09T00:00:00Z'')" "str ''42''" True]
  have a: "handleNodeClick True (enrich (sampleEvent ''event:42'' 1 ''2025-01-09T00:00:00Z''))
     = Inr (OnEventClick (str ''42''))"
    by (simp add: enrich_event_42 ne)
  from handleNodeClick_navigates
    [of "enrich (sampleEvent ''event:42'' 1 ''2025-01-09T00:00:00Z'')" "str ''42''" False
      "str ''42''"]
  have b: "handleNodeClick False (enrich (sampleEvent ''event:42'' 1 ''2025-01-09T00:00:00Z''))
     = Inr (LocationHref (str ''/events/eventpage/42''))"
    by (simp add: enrich_event_42 ne encode_42 cat)
  from handleNodeClick_navigates
    [of "enrich (sampleEvent ''a b/c'' 1 ''2025-01-09T00:00:00Z'')" "str ''a b/c''" False
      "str ''a%20b%2Fc''"]
  have c: "handleNodeClick False (enrich (sampleEvent ''a b/c'' 1 ''2025-01-09T00:00:00Z''))
     = Inr (LocationHref (str ''/events/eventpage/a%20b%2Fc''))"
    by (simp add: enrich_event_slash ne encode_slash cat)
  from handleNodeClick_navigates
    [of "sampleEvent ''event:42'' 1 ''2025-01-09T00:00:00Z''" _ True]
  have d: "handleNodeClick True (sampleEvent ''event:42'' 1 ''2025-01-09T00:00:00Z'')
     = Inr NoNavigation"
    by (simp add: unenriched_event)
  from handleNodeClick_navigates
    [of "enrich (sampleNode (Some ''person:7'') (Some ''person'') 100 None)" _ True]
  have e: "handleNodeClick True
      (enrich (sampleNode (Some ''person:7'') (Some ''person'') 100 None)) = Inr NoNavigation"
    by (simp add: enrich_person ne)
  from a b c d e show ?thesis by simp
qed

lemma enrich_surrogate:
  "node_type (enrich surrogateEvent) = Some (str ''event'')"
  "event_id (enrich surrogateEvent) = Some [0xD800]"
  by (simp_all add: enrich_def surrogateEvent_def sampleEvent_def sampleNode_def String_of_id_def
      startsWith_def str_def Let_def)

lemma enrich_empty_id:
  "node_type (enrich (sampleEvent ''event:'' 1 ''2025-01-09T00:00:00Z'')) = Some (str ''event'')"
  "event_id (enrich (sampleEvent ''event:'' 1 ''2025-01-09T00:00:00Z'')) = Some []"
  by (simp_all add: enrich_def sampleEvent_def sampleNode_def String_of_id_def startsWith_def
      str_def Let_def)

text \<open>
  Claim C9 as stated fails in two corners. An event whose id ends in a lone surrogate has a
  derived \<^verbatim>\<open>event_id\<close>, and a click on it without callback raises \<^verbatim>\<open>URIError\<close> instead of
  changing the location. An event with the id \<^verbatim>\<open>"event:"\<close> has the derived \<^verbatim>\<open>event_id\<close>
  \<^verbatim>\<open>""\<close>, which is falsy: a click on it does not navigate, callback or not.
\<close>

theorem click_without_navigation:
  "node_type (enrich surrogateEvent) = Some (str ''event'')
   \<and> event_id (enrich surrogateEvent) = Some [0xD800]
   \<and> handleNodeClick False (enrich surrogateEvent) = Inl URIError
   \<and> node_type (enrich (sampleEvent ''event:'' 1 ''2025-01-09T00:00:00Z'')) = Some (str ''event'')
   \<and> event_id (enrich (sampleEvent ''event:'' 1 ''2025-01-09T00:00:00Z'')) = Some []
   \<and> handleNodeClick True (enrich (sampleEvent ''event:'' 1 ''2025-01-09T00:00:00Z''))
     = Inr NoNavigation"
  by (simp add: enrich_surrogate enrich_empty_id handleNodeClick_def truthy_def String_of_def
      uriUnreserved_def isLowSurrogate_def isHighSurrogate_def)

end
